theory Spec2Isabelle
  imports Complex_Main
begin

section \<open>Values\<close>

text \<open>
  A JavaScript value as \<^verbatim>\<open>JSON.parse\<close> builds it. Numbers are rationals (every finite
  double is one); an object is the list of its own properties.
\<close>

datatype json =
    JNull
  | JBool bool
  | JNum rat
  | JStr string
  | JArr "json list"
  | JObj "(string \<times> json) list"

text \<open>
  A value of \<^verbatim>\<open>req.query\<close>: the query-string parser yields a string, or for repeated and
  bracketed keys an array or an object whose leaves are strings.
\<close>

datatype qval =
    QStr string
  | QArr "qval list"
  | QObj "(string \<times> qval) list"


fun truthy_q :: "qval \<Rightarrow> bool" where
  "truthy_q (QStr s) = (s \<noteq> [])"
| "truthy_q (QArr xs) = True"
| "truthy_q (QObj kvs) = True"

text \<open>\<^verbatim>\<open>if (req.query.k)\<close>: the parameter when it is there and truthy.\<close>

fun supplied :: "qval option \<Rightarrow> qval option" where
  "supplied None = None"
| "supplied (Some v) = (if truthy_q v then Some v else None)"

text \<open>A query value used as a JavaScript value without going through a string.\<close>

fun toJson :: "qval \<Rightarrow> json" where
  "toJson (QStr s) = JStr s"
| "toJson (QArr xs) = JArr (map toJson xs)"
| "toJson (QObj kvs) = JObj (map (map_prod id toJson) kvs)"

text \<open>
  The string conversion that \<^verbatim>\<open>JSON.parse\<close> and \<^verbatim>\<open>parseInt\<close> apply to an argument that
  is not a string: an array joins its elements with commas, an object prints as
  \<^verbatim>\<open>[object Object]\<close>.
\<close>

fun join :: "string \<Rightarrow> string list \<Rightarrow> string" where
  "join sep [] = []"
| "join sep [x] = x"
| "join sep (x # y # ys) = x @ sep @ join sep (y # ys)"

fun ToString :: "qval \<Rightarrow> string" where
  "ToString (QStr s) = s"
| "ToString (QArr xs) = join '','' (map ToString xs)"
| "ToString (QObj kvs) = ''[object Object]''"

subsection \<open>parseInt\<close>

text \<open>
  A string is held as the UTF-8 bytes of the JavaScript string. \<^verbatim>\<open>parseInt(string)\<close> with no
  radix: leading white space is dropped, then an optional sign, then an optional \<^verbatim>\<open>0x\<close> prefix
  that selects radix 16; the longest run of digits of the radix is the number, and there
  is no number (\<^verbatim>\<open>NaN\<close>, here \<open>None\<close>) when that run is empty. Characters after the run are
  ignored.

  White space is what \<^verbatim>\<open>StrWhiteSpaceChar\<close> of the language covers: TAB, LF, VT, FF, CR, the
  space, U+00A0, U+1680, U+2000 to U+200A, U+2028, U+2029, U+202F, U+205F, U+3000 and
  U+FEFF, each as its UTF-8 bytes.
\<close>

definition isWhiteSpace :: "string \<Rightarrow> bool" where
  "isWhiteSpace w =
     (w \<in> set [[CHR 0x09], [CHR 0x0A], [CHR 0x0B], [CHR 0x0C], [CHR 0x0D], [CHR 0x20],
               [CHR 0xC2, CHR 0xA0],
               [CHR 0xE1, CHR 0x9A, CHR 0x80],
               [CHR 0xE2, CHR 0x80, CHR 0x80], [CHR 0xE2, CHR 0x80, CHR 0x81],
               [CHR 0xE2, CHR 0x80, CHR 0x82], [CHR 0xE2, CHR 0x80, CHR 0x83],
               [CHR 0xE2, CHR 0x80, CHR 0x84], [CHR 0xE2, CHR 0x80, CHR 0x85],
               [CHR 0xE2, CHR 0x80, CHR 0x86], [CHR 0xE2, CHR 0x80, CHR 0x87],
               [CHR 0xE2, CHR 0x80, CHR 0x88], [CHR 0xE2, CHR 0x80, CHR 0x89],
               [CHR 0xE2, CHR 0x80, CHR 0x8A],
               [CHR 0xE2, CHR 0x80, CHR 0xA8], [CHR 0xE2, CHR 0x80, CHR 0xA9],
               [CHR 0xE2, CHR 0x80, CHR 0xAF],
               [CHR 0xE2, CHR 0x81, CHR 0x9F],
               [CHR 0xE3, CHR 0x80, CHR 0x80],
               [CHR 0xEF, CHR 0xBB, CHR 0xBF]])"

text \<open>The string without its leading white space.\<close>

fun trimStart :: "string \<Rightarrow> string" where
  "trimStart (a # b # c # r) =
     (if isWhiteSpace [a] then trimStart (b # c # r)
      else if isWhiteSpace [a, b] then trimStart (c # r)
      else if isWhiteSpace [a, b, c] then trimStart r
      else a # b # c # r)"
| "trimStart [a, b] =
     (if isWhiteSpace [a] then trimStart [b]
      else if isWhiteSpace [a, b] then []
      else [a, b])"
| "trimStart [a] = (if isWhiteSpace [a] then [] else [a])"
| "trimStart [] = []"

definition digitValue :: "char \<Rightarrow> nat option" where
  "digitValue c =
     (let n = (of_char c :: nat) in
      if 48 \<le> n \<and> n \<le> 57 then Some (n - 48)
      else if 97 \<le> n \<and> n \<le> 122 then Some (n - 87)
      else if 65 \<le> n \<and> n \<le> 90 then Some (n - 55)
      else None)"

definition isRadixDigit :: "nat \<Rightarrow> char \<Rightarrow> bool" where
  "isRadixDigit R c = (case digitValue c of Some d \<Rightarrow> d < R | None \<Rightarrow> False)"

text \<open>The mathematical integer that the digits \<open>Z\<close> denote in radix \<open>R\<close>.\<close>

definition mathInt :: "nat \<Rightarrow> string \<Rightarrow> nat" where
  "mathInt R Z = foldl (\<lambda>acc c. acc * R + (case digitValue c of Some d \<Rightarrow> d | None \<Rightarrow> 0)) 0 Z"

text \<open>
  \<^verbatim>\<open>parseInt\<close> returns a Number, a double: the integer is rounded to 53 significant bits, a
  tie going to the even neighbour. Up to \<open>2 ^ 53\<close> nothing is lost. The model rounds the
  exact integer (past 20 decimal digits the language allows an implementation to read the
  later digits as 0 first). From \<open>2 ^ 1024\<close> on JavaScript has \<^verbatim>\<open>Infinity\<close>, a Number that is
  neither \<^verbatim>\<open>NaN\<close> nor zero; \<open>int\<close> has no such value and the rounded integer stands for it.
\<close>

fun bitLength :: "nat \<Rightarrow> nat" where
  "bitLength n = (if n = 0 then 0 else Suc (bitLength (n div 2)))"

declare bitLength.simps [simp del]

definition toNumber :: "nat \<Rightarrow> nat" where
  "toNumber n =
     (if n < 2 ^ 53 then n
      else
        (let e = bitLength n - 53;
             q = n div 2 ^ e;
             r = n mod 2 ^ e
         in (if 2 ^ e < 2 * r \<or> (2 * r = 2 ^ e \<and> odd q) then q + 1 else q) * 2 ^ e))"

definition parseInt :: "string \<Rightarrow> int option" where
  "parseInt inputString =
     (let S0 = trimStart inputString;
          sign = (if take 1 S0 = ''-'' then - 1 else 1 :: int);
          S1 = (if take 1 S0 = ''+'' \<or> take 1 S0 = ''-'' then drop 1 S0 else S0);
          hex = (take 2 S1 = ''0x'' \<or> take 2 S1 = ''0X'');
          R = (if hex then 16 else 10);
          S2 = (if hex then drop 2 S1 else S1);
          Z = takeWhile (isRadixDigit R) S2
      in if Z = [] then None else Some (sign * int (toNumber (mathInt R Z))))"

section \<open>The query interpreter\<close>

text \<open>The recognised keys of \<^verbatim>\<open>req.query\<close>; \<open>None\<close> is an absent key.\<close>

record req_query =
  q_where :: "qval option"
  q_filter :: "qval option"
  q_sort :: "qval option"
  q_select :: "qval option"
  q_skip :: "qval option"
  q_limit :: "qval option"
  q_count :: "qval option"

text \<open>The \<^verbatim>\<open>options\<close> object; \<open>None\<close> is a property that was never set.\<close>

record parse_options =
  opt_sort :: "json option"
  opt_select :: "json option"
  opt_skip :: "int option"
  opt_limit :: "int option"

record parsed =
  query :: json
  options :: parse_options
  count :: bool

definition no_options :: parse_options where
  "no_options = \<lparr>opt_sort = None, opt_select = None, opt_skip = None, opt_limit = None\<rparr>"

text \<open>
  The own enumerable properties that \<^verbatim>\<open>for (key in v)\<close> visits: the entries of an object, the
  elements of an array, the characters of a string (one value a byte here; only whether
  there is one is ever read), nothing for \<^verbatim>\<open>null\<close>, a number or a boolean.
\<close>

fun ownValues :: "json \<Rightarrow> json list" where
  "ownValues (JObj kvs) = map snd kvs"
| "ownValues (JArr xs) = xs"
| "ownValues (JStr s) = map (\<lambda>c. JStr [c]) s"
| "ownValues JNull = []"
| "ownValues (JBool b) = []"
| "ownValues (JNum n) = []"

text \<open>\<^verbatim>\<open>Object.keys(v).length\<close>; \<^verbatim>\<open>Object.keys(null)\<close> throws a TypeError (\<open>None\<close>).\<close>

fun Object_keys_length :: "json \<Rightarrow> nat option" where
  "Object_keys_length JNull = None"
| "Object_keys_length v = Some (length (ownValues v))"

text \<open>
  \<^verbatim>\<open>filterParam.hasOwnProperty\<close> is the method every object inherits unless the object has an
  own property of that name. A parsed value is never a function, so with such a property
  the call \<^verbatim>\<open>filterParam.hasOwnProperty(key)\<close> throws a TypeError.
\<close>

fun shadows_hasOwnProperty :: "json \<Rightarrow> bool" where
  "shadows_hasOwnProperty (JObj kvs) = (''hasOwnProperty'' \<in> set (map fst kvs))"
| "shadows_hasOwnProperty v = False"

fun typeof_number :: "json \<Rightarrow> bool" where
  "typeof_number (JNum n) = True"
| "typeof_number v = False"

text \<open>
  The loop of lines 26 to 35 over the values it visits: each round calls
  \<^verbatim>\<open>hasOwnProperty\<close> first (\<open>None\<close> when that throws; for a visited key it answers true), then
  tests the value, and leaves at the first value that is not the number 1 or 0.
\<close>

fun isProjection :: "bool \<Rightarrow> json list \<Rightarrow> bool option" where
  "isProjection shadowed [] = Some True"
| "isProjection shadowed (val # rest) =
     (if shadowed then None
      else if \<not> typeof_number val \<or> (val \<noteq> JNum 1 \<and> val \<noteq> JNum 0) then Some False
      else isProjection shadowed rest)"

text \<open>
  The interpreter takes \<^verbatim>\<open>JSON.parse\<close> and \<^verbatim>\<open>JSON.stringify\<close> as parameters: \<open>JSON_parse s\<close> is
  \<open>None\<close> when \<^verbatim>\<open>JSON.parse\<close> throws. Each block of \<^verbatim>\<open>parseQueryParams\<close> is one function;
  \<open>Inl\<close> is the early return of \<^verbatim>\<open>{ error: ... }\<close>.
\<close>

text \<open>\<^verbatim>\<open>typeof v === 'string' ? v : JSON.stringify(v)\<close>.\<close>

fun whereParam :: "(qval \<Rightarrow> string) \<Rightarrow> qval \<Rightarrow> string" where
  "whereParam JSON_stringify (QStr s) = s"
| "whereParam JSON_stringify (QArr xs) = JSON_stringify (QArr xs)"
| "whereParam JSON_stringify (QObj kvs) = JSON_stringify (QObj kvs)"

text \<open>\<^verbatim>\<open>typeof v === 'string' ? JSON.parse(v) : v\<close>.\<close>

fun filterParam :: "(string \<Rightarrow> json option) \<Rightarrow> qval \<Rightarrow> json option" where
  "filterParam JSON_parse (QStr s) = JSON_parse s"
| "filterParam JSON_parse (QArr xs) = Some (toJson (QArr xs))"
| "filterParam JSON_parse (QObj kvs) = Some (toJson (QObj kvs))"

definition parseWhereFilter ::
  "(string \<Rightarrow> json option) \<Rightarrow> (qval \<Rightarrow> string) \<Rightarrow> req_query \<Rightarrow> string + json \<times> parse_options" where
  "parseWhereFilter JSON_parse JSON_stringify q =
     (case supplied (q_where q) of
        Some w \<Rightarrow>
          (case JSON_parse (whereParam JSON_stringify w) of
             None \<Rightarrow> Inl ''Invalid where parameter. Must be valid JSON.''
           | Some j \<Rightarrow> Inr (j, no_options))
      | None \<Rightarrow>
          (case supplied (q_filter q) of
             Some f \<Rightarrow>
               (case filterParam JSON_parse f of
                  None \<Rightarrow> Inl ''Invalid filter parameter. Must be valid JSON.''
                | Some fp \<Rightarrow>
                    (case isProjection (shadows_hasOwnProperty fp) (ownValues fp) of
                       None \<Rightarrow> Inl ''Invalid filter parameter. Must be valid JSON.''
                     | Some isProj \<Rightarrow>
                         if isProj then
                           (case Object_keys_length fp of
                              None \<Rightarrow> Inl ''Invalid filter parameter. Must be valid JSON.''
                            | Some n \<Rightarrow>
                                if n > 0 then Inr (JObj [], no_options\<lparr>opt_select := Some fp\<rparr>)
                                else Inr (fp, no_options))
                         else Inr (fp, no_options)))
           | None \<Rightarrow> Inr (JObj [], no_options)))"

definition parseSort ::
  "(string \<Rightarrow> json option) \<Rightarrow> req_query \<Rightarrow> parse_options \<Rightarrow> string + parse_options" where
  "parseSort JSON_parse q opts =
     (case supplied (q_sort q) of
        Some v \<Rightarrow>
          (case JSON_parse (ToString v) of
             None \<Rightarrow> Inl ''Invalid sort parameter. Must be valid JSON.''
           | Some j \<Rightarrow> Inr (opts\<lparr>opt_sort := Some j\<rparr>))
      | None \<Rightarrow> Inr opts)"

definition parseSelect ::
  "(string \<Rightarrow> json option) \<Rightarrow> req_query \<Rightarrow> parse_options \<Rightarrow> string + parse_options" where
  "parseSelect JSON_parse q opts =
     (case supplied (q_select q) of
        Some v \<Rightarrow>
          (case JSON_parse (ToString v) of
             None \<Rightarrow> Inl ''Invalid select parameter. Must be valid JSON.''
           | Some j \<Rightarrow> Inr (opts\<lparr>opt_select := Some j\<rparr>))
      | None \<Rightarrow> Inr opts)"

definition parseSkip :: "req_query \<Rightarrow> parse_options \<Rightarrow> string + parse_options" where
  "parseSkip q opts =
     (case supplied (q_skip q) of
        Some v \<Rightarrow>
          (case parseInt (ToString v) of
             None \<Rightarrow> Inl ''Invalid skip parameter. Must be a number.''
           | Some n \<Rightarrow> Inr (opts\<lparr>opt_skip := Some n\<rparr>))
      | None \<Rightarrow> Inr opts)"

definition parseLimit :: "req_query \<Rightarrow> int option \<Rightarrow> parse_options \<Rightarrow> string + parse_options" where
  "parseLimit q defaultLimit opts =
     (case supplied (q_limit q) of
        Some v \<Rightarrow>
          (case parseInt (ToString v) of
             None \<Rightarrow> Inl ''Invalid limit parameter. Must be a number.''
           | Some n \<Rightarrow> Inr (opts\<lparr>opt_limit := Some n\<rparr>))
      | None \<Rightarrow>
          (case defaultLimit of
             Some d \<Rightarrow> Inr (opts\<lparr>opt_limit := Some d\<rparr>)
           | None \<Rightarrow> Inr opts))"

definition parseQueryParams ::
  "(string \<Rightarrow> json option) \<Rightarrow> (qval \<Rightarrow> string) \<Rightarrow> req_query \<Rightarrow> int option \<Rightarrow> string + parsed" where
  "parseQueryParams JSON_parse JSON_stringify q defaultLimit =
     (case parseWhereFilter JSON_parse JSON_stringify q of
        Inl e \<Rightarrow> Inl e
      | Inr (qry, opts0) \<Rightarrow>
     (case parseSort JSON_parse q opts0 of
        Inl e \<Rightarrow> Inl e
      | Inr opts1 \<Rightarrow>
     (case parseSelect JSON_parse q opts1 of
        Inl e \<Rightarrow> Inl e
      | Inr opts2 \<Rightarrow>
     (case parseSkip q opts2 of
        Inl e \<Rightarrow> Inl e
      | Inr opts3 \<Rightarrow>
     (case parseLimit q defaultLimit opts3 of
        Inl e \<Rightarrow> Inl e
      | Inr opts4 \<Rightarrow>
          Inr \<lparr>query = qry, options = opts4, count = (q_count q = Some (QStr ''true''))\<rparr>)))))"

section \<open>Documents and the store\<close>

text \<open>
  The documents, with the fields the handlers read and write. \<open>u_id\<close> and \<open>t_id\<close> are
  \<^verbatim>\<open>_id.toString()\<close>; ids, names and dates are strings.
\<close>

record user =
  u_id :: string
  u_name :: string
  u_email :: string
  pendingTasks :: "string list"

record task =
  t_id :: string
  t_name :: string
  description :: string
  deadline :: string
  completed :: bool
  assignedUser :: string
  assignedUserName :: string

text \<open>
  The store: the two collections, and a plan of the failures to come. Each store call
  takes the head of \<open>faults\<close>; \<open>True\<close> rejects that call (a lost connection, a cast or
  validation error), and an empty plan rejects nothing.
\<close>

record store =
  users :: "user list"
  tasks :: "task list"
  faults :: "bool list"

datatype store_error = DuplicateKey | StoreFailure

definition attempt :: "store \<Rightarrow> bool \<times> store" where
  "attempt s = (case faults s of [] \<Rightarrow> (False, s) | b # bs \<Rightarrow> (b, s\<lparr>faults := bs\<rparr>))"

text \<open>The call that comes \<open>k\<close> calls after the next one is rejected; beyond its end the plan
  rejects nothing.\<close>

definition rejects :: "store \<Rightarrow> nat \<Rightarrow> bool" where
  "rejects s k = (k < length (faults s) \<and> faults s ! k)"

definition User_findById :: "string \<Rightarrow> store \<Rightarrow> (store_error + user option) \<times> store" where
  "User_findById i s =
     (let (failed, s1) = attempt s in
      if failed then (Inl StoreFailure, s1)
      else (Inr (find (\<lambda>u. u_id u = i) (users s1)), s1))"

definition Task_findById :: "string \<Rightarrow> store \<Rightarrow> (store_error + task option) \<times> store" where
  "Task_findById i s =
     (let (failed, s1) = attempt s in
      if failed then (Inl StoreFailure, s1)
      else (Inr (find (\<lambda>t. t_id t = i) (tasks s1)), s1))"

text \<open>
  Modelled from the spec: the schema of the user model is not among the sources. The spec
  makes \<open>email\<close> globally unique, and the handlers test for the store's duplicate-key
  error (code 11000): a write that brings in an email another user holds is rejected
  with \<open>DuplicateKey\<close>, and so is an insert under an id the collection has.
\<close>

definition email_taken :: "user \<Rightarrow> user list \<Rightarrow> bool" where
  "email_taken u us = list_ex (\<lambda>d. u_id d \<noteq> u_id u \<and> u_email d = u_email u) us"

text \<open>\<^verbatim>\<open>save()\<close> of a document made by \<^verbatim>\<open>new User()\<close>: an insert.\<close>

definition User_save_new :: "user \<Rightarrow> store \<Rightarrow> (store_error + user) \<times> store" where
  "User_save_new u s =
     (let (failed, s1) = attempt s in
      if failed then (Inl StoreFailure, s1)
      else if list_ex (\<lambda>d. u_id d = u_id u) (users s1) \<or> email_taken u (users s1)
        then (Inl DuplicateKey, s1)
      else (Inr u, s1\<lparr>users := users s1 @ [u]\<rparr>))"

text \<open>
  \<^verbatim>\<open>save()\<close> of a document that was found: it writes the modified paths, so the unique
  index is consulted only when the email differs from the stored one.
\<close>

definition User_save :: "user \<Rightarrow> store \<Rightarrow> (store_error + user) \<times> store" where
  "User_save u s =
     (let (failed, s1) = attempt s in
      if failed then (Inl StoreFailure, s1)
      else if (case find (\<lambda>d. u_id d = u_id u) (users s1) of
                 Some d \<Rightarrow> u_email d \<noteq> u_email u
               | None \<Rightarrow> True) \<and> email_taken u (users s1)
        then (Inl DuplicateKey, s1)
      else (Inr u, s1\<lparr>users := map (\<lambda>d. if u_id d = u_id u then u else d) (users s1)\<rparr>))"

definition Task_save_new :: "task \<Rightarrow> store \<Rightarrow> (store_error + task) \<times> store" where
  "Task_save_new t s =
     (let (failed, s1) = attempt s in
      if failed then (Inl StoreFailure, s1)
      else if list_ex (\<lambda>d. t_id d = t_id t) (tasks s1) then (Inl DuplicateKey, s1)
      else (Inr t, s1\<lparr>tasks := tasks s1 @ [t]\<rparr>))"

definition Task_save :: "task \<Rightarrow> store \<Rightarrow> (store_error + task) \<times> store" where
  "Task_save t s =
     (let (failed, s1) = attempt s in
      if failed then (Inl StoreFailure, s1)
      else (Inr t, s1\<lparr>tasks := map (\<lambda>d. if t_id d = t_id t then t else d) (tasks s1)\<rparr>))"

definition User_findByIdAndDelete :: "string \<Rightarrow> store \<Rightarrow> (store_error + unit) \<times> store" where
  "User_findByIdAndDelete i s =
     (let (failed, s1) = attempt s in
      if failed then (Inl StoreFailure, s1)
      else (Inr (), s1\<lparr>users := filter (\<lambda>u. u_id u \<noteq> i) (users s1)\<rparr>))"

definition Task_findByIdAndDelete :: "string \<Rightarrow> store \<Rightarrow> (store_error + unit) \<times> store" where
  "Task_findByIdAndDelete i s =
     (let (failed, s1) = attempt s in
      if failed then (Inl StoreFailure, s1)
      else (Inr (), s1\<lparr>tasks := filter (\<lambda>t. t_id t \<noteq> i) (tasks s1)\<rparr>))"

text \<open>\<^verbatim>\<open>Task.updateMany({ assignedUser: i }, { assignedUserName: n })\<close>.\<close>

definition Task_updateMany :: "string \<Rightarrow> string \<Rightarrow> store \<Rightarrow> (store_error + unit) \<times> store" where
  "Task_updateMany i n s =
     (let (failed, s1) = attempt s in
      if failed then (Inl StoreFailure, s1)
      else (Inr (), s1\<lparr>tasks :=
              map (\<lambda>t. if assignedUser t = i then t\<lparr>assignedUserName := n\<rparr> else t) (tasks s1)\<rparr>))"

section \<open>Responses\<close>

datatype payload = Null | ErrMessage store_error | TaskDoc task | UserDoc user

text \<open>
  \<open>Json c m d\<close> is \<^verbatim>\<open>res.status(c).json({ message: m, data: d })\<close>, \<open>NoContent c\<close> is
  \<^verbatim>\<open>res.status(c).send()\<close>.
\<close>

datatype response = Json nat string payload | NoContent nat

definition sendSuccess :: "nat \<Rightarrow> string \<Rightarrow> payload \<Rightarrow> response" where
  "sendSuccess statusCode message d = Json statusCode message d"

definition sendError :: "nat \<Rightarrow> string \<Rightarrow> store_error option \<Rightarrow> response" where
  "sendError statusCode message d =
     Json statusCode message (case d of Some e \<Rightarrow> ErrMessage e | None \<Rightarrow> Null)"

section \<open>The list handlers\<close>









section \<open>The relationship synchronizer\<close>

text \<open>
  Request bodies. A field is \<open>None\<close> when the body lacks it. \<open>completed\<close> is kept as the
  JSON value the client sent, since the handlers compare it with \<^verbatim>\<open>===\<close>.
\<close>

record task_body =
  b_name :: "string option"
  b_description :: "string option"
  b_deadline :: "string option"
  b_completed :: "json option"
  b_assignedUser :: "string option"
  b_assignedUserName :: "string option"

record user_body =
  ub_name :: "string option"
  ub_email :: "string option"
  ub_pendingTasks :: "string list option"

text \<open>\<^verbatim>\<open>!x\<close> negated, and \<^verbatim>\<open>x || d\<close>, on a string that may be absent.\<close>

fun given :: "string option \<Rightarrow> bool" where
  "given None = False"
| "given (Some x) = (x \<noteq> [])"

fun or_default :: "string option \<Rightarrow> string \<Rightarrow> string" where
  "or_default None d = d"
| "or_default (Some x) d = (if x \<noteq> [] then x else d)"

text \<open>\<^verbatim>\<open>req.body.completed === true || req.body.completed === 'true' || false\<close>.\<close>

definition completed_of :: "json option \<Rightarrow> bool" where
  "completed_of c = (c = Some (JBool True) \<or> c = Some (JStr ''true'') \<or> False)"

text \<open>The lookup of the assigned user's name; a missing user and a rejected lookup both
  give \<^verbatim>\<open>"unassigned"\<close>.\<close>

definition fetchUserName :: "string \<Rightarrow> store \<Rightarrow> string \<times> store" where
  "fetchUserName i s =
     (case User_findById i s of
        (Inr (Some u), s1) \<Rightarrow> (u_name u, s1)
      | (Inr None, s1) \<Rightarrow> (''unassigned'', s1)
      | (Inl e, s1) \<Rightarrow> (''unassigned'', s1))"

text \<open>Lines 158 to 172 and 240 to 255: the name the body gives, or \<^verbatim>\<open>"unassigned"\<close>, unless the
  task is assigned and the body gives no name of its own; then the user is looked up.\<close>

definition resolveUserName :: "string \<Rightarrow> string option \<Rightarrow> store \<Rightarrow> string \<times> store" where
  "resolveUserName newAssignedUser bodyName s =
     (if newAssignedUser \<noteq> [] \<and> (\<not> given bodyName \<or> bodyName = Some ''unassigned'')
      then fetchUserName newAssignedUser s
      else (or_default bodyName ''unassigned'', s))"

text \<open>The block that adds a task id to a user's \<open>pendingTasks\<close> (task routes, lines 179 to
  185, 283 to 290 and 297 to 303), and the block that removes it (lines 273 to 279 and
  328 to 334).\<close>

definition addPending :: "string \<Rightarrow> string \<Rightarrow> store \<Rightarrow> (store_error + unit) \<times> store" where
  "addPending userId taskId s =
     (case User_findById userId s of
        (Inl e, s1) \<Rightarrow> (Inl e, s1)
      | (Inr None, s1) \<Rightarrow> (Inr (), s1)
      | (Inr (Some u), s1) \<Rightarrow>
          if taskId \<in> set (pendingTasks u) then (Inr (), s1)
          else (case User_save (u\<lparr>pendingTasks := pendingTasks u @ [taskId]\<rparr>) s1 of
                  (Inl e, s2) \<Rightarrow> (Inl e, s2)
                | (Inr saved, s2) \<Rightarrow> (Inr (), s2)))"

definition removePending :: "string \<Rightarrow> string \<Rightarrow> store \<Rightarrow> (store_error + unit) \<times> store" where
  "removePending userId taskId s =
     (case User_findById userId s of
        (Inl e, s1) \<Rightarrow> (Inl e, s1)
      | (Inr None, s1) \<Rightarrow> (Inr (), s1)
      | (Inr (Some u), s1) \<Rightarrow>
          (case User_save (u\<lparr>pendingTasks := filter (\<lambda>i. i \<noteq> taskId) (pendingTasks u)\<rparr>) s1 of
             (Inl e, s2) \<Rightarrow> (Inl e, s2)
           | (Inr saved, s2) \<Rightarrow> (Inr (), s2)))"

subsection \<open>Task routes\<close>

text \<open>\<^verbatim>\<open>POST /api/tasks\<close>; \<open>oid\<close> is the id that \<^verbatim>\<open>new Task()\<close> draws.\<close>

definition post_tasks :: "task_body \<Rightarrow> string \<Rightarrow> store \<Rightarrow> response \<times> store" where
  "post_tasks body oid s =
     (if \<not> given (b_name body) \<or> \<not> given (b_deadline body)
      then (sendError 400 ''Task must have a name and deadline'' None, s)
      else
        (case resolveUserName (or_default (b_assignedUser body) []) (b_assignedUserName body) s of
           (nm, s1) \<Rightarrow>
             (case Task_save_new \<lparr>t_id = oid,
                                  t_name = or_default (b_name body) [],
                                  description = or_default (b_description body) [],
                                  deadline = or_default (b_deadline body) [],
                                  completed = completed_of (b_completed body),
                                  assignedUser = or_default (b_assignedUser body) [],
                                  assignedUserName = nm\<rparr> s1 of
                (Inl err, s2) \<Rightarrow> (sendError 500 ''Error creating task'' (Some err), s2)
              | (Inr savedTask, s2) \<Rightarrow>
                  if assignedUser savedTask \<noteq> [] \<and> \<not> completed savedTask then
                    (case addPending (assignedUser savedTask) (t_id savedTask) s2 of
                       (Inr u, s3) \<Rightarrow>
                         (sendSuccess 201 ''Task created successfully'' (TaskDoc savedTask), s3)
                     | (Inl err, s3) \<Rightarrow>
                         (sendSuccess 201 ''Task created successfully'' (TaskDoc savedTask), s3))
                  else (sendSuccess 201 ''Task created successfully'' (TaskDoc savedTask), s2))))"

text \<open>The callback of lines 267 to 310, which runs once the updated task is saved; it sees the
  old and the new assignment and completion.\<close>

definition put_tasks_sync ::
  "string \<Rightarrow> bool \<Rightarrow> string \<Rightarrow> bool \<Rightarrow> task \<Rightarrow> store \<Rightarrow> response \<times> store" where
  "put_tasks_sync oldAssignedUser oldCompleted newAssignedUser newCompleted updatedTask s3 =
     (let taskId = t_id updatedTask in
      if oldAssignedUser \<noteq> [] \<and>
         (oldAssignedUser \<noteq> newAssignedUser \<or> (newCompleted \<and> \<not> oldCompleted)) then
        (case removePending oldAssignedUser taskId s3 of
           (Inl err, s4) \<Rightarrow> (sendError 500 ''Error updating task'' (Some err), s4)
         | (Inr u, s4) \<Rightarrow>
             if newAssignedUser \<noteq> [] \<and> \<not> newCompleted then
               (case addPending newAssignedUser taskId s4 of
                  (Inl err, s5) \<Rightarrow> (sendError 500 ''Error updating task'' (Some err), s5)
                | (Inr u', s5) \<Rightarrow>
                    (sendSuccess 200 ''Task updated successfully'' (TaskDoc updatedTask), s5))
             else (sendSuccess 200 ''Task updated successfully'' (TaskDoc updatedTask), s4))
      else if newAssignedUser \<noteq> [] \<and> \<not> newCompleted \<and> oldAssignedUser \<noteq> newAssignedUser then
        (case addPending newAssignedUser taskId s3 of
           (Inl err, s4) \<Rightarrow> (sendError 500 ''Error updating task'' (Some err), s4)
         | (Inr u, s4) \<Rightarrow>
             (sendSuccess 200 ''Task updated successfully'' (TaskDoc updatedTask), s4))
      else (sendSuccess 200 ''Task updated successfully'' (TaskDoc updatedTask), s3))"

text \<open>\<^verbatim>\<open>PUT /api/tasks/:id\<close>. Every rejection after the lookup of the task reaches the one
  \<^verbatim>\<open>catch\<close> at the end of the chain.\<close>

definition put_tasks :: "string \<Rightarrow> task_body \<Rightarrow> store \<Rightarrow> response \<times> store" where
  "put_tasks i body s =
     (if \<not> given (b_name body) \<or> \<not> given (b_deadline body)
      then (sendError 400 ''Task must have a name and deadline'' None, s)
      else
        (case Task_findById i s of
           (Inl err, s1) \<Rightarrow> (sendError 500 ''Error updating task'' (Some err), s1)
         | (Inr None, s1) \<Rightarrow> (sendError 404 ''Task not found'' None, s1)
         | (Inr (Some t), s1) \<Rightarrow>
             (case resolveUserName (or_default (b_assignedUser body) []) (b_assignedUserName body) s1 of
                (newAssignedUserName, s2) \<Rightarrow>
                  (case Task_save (t\<lparr>t_name := or_default (b_name body) [],
                                      description := or_default (b_description body) [],
                                      deadline := or_default (b_deadline body) [],
                                      completed := completed_of (b_completed body),
                                      assignedUser := or_default (b_assignedUser body) [],
                                      assignedUserName := newAssignedUserName\<rparr>) s2 of
                     (Inl err, s3) \<Rightarrow> (sendError 500 ''Error updating task'' (Some err), s3)
                   | (Inr updatedTask, s3) \<Rightarrow>
                       put_tasks_sync (assignedUser t) (completed t)
                         (or_default (b_assignedUser body) []) (completed_of (b_completed body))
                         updatedTask s3))))"

text \<open>\<^verbatim>\<open>DELETE /api/tasks/:id\<close>.\<close>

definition delete_tasks :: "string \<Rightarrow> store \<Rightarrow> response \<times> store" where
  "delete_tasks i s =
     (case Task_findById i s of
        (Inl err, s1) \<Rightarrow> (sendError 500 ''Error deleting task'' (Some err), s1)
      | (Inr None, s1) \<Rightarrow> (sendError 404 ''Task not found'' None, s1)
      | (Inr (Some t), s1) \<Rightarrow>
          if assignedUser t \<noteq> [] then
            (case removePending (assignedUser t) (t_id t) s1 of
               (Inl err, s2) \<Rightarrow> (sendError 500 ''Error deleting task'' (Some err), s2)
             | (Inr u, s2) \<Rightarrow>
                 (case Task_findByIdAndDelete (t_id t) s2 of
                    (Inl err, s3) \<Rightarrow> (sendError 500 ''Error deleting task'' (Some err), s3)
                  | (Inr u', s3) \<Rightarrow> (NoContent 204, s3)))
          else
            (case Task_findByIdAndDelete (t_id t) s1 of
               (Inl err, s2) \<Rightarrow> (sendError 500 ''Error deleting task'' (Some err), s2)
             | (Inr u, s2) \<Rightarrow> (NoContent 204, s2)))"

subsection \<open>User routes\<close>

text \<open>
  The user routes repair a list of tasks with
  \<^verbatim>\<open>ids.map(id => Task.findById(id).then(task => { if (task) { ...; return task.save() } }))\<close>
  under \<^verbatim>\<open>Promise.all\<close>. The \<^verbatim>\<open>map\<close> issues every lookup, in list order, before any callback
  runs; the callbacks then run in that order as the lookups answer, each saving, with
  \<open>Task_save\<close>, the task it was given. Every promise runs whether or not another is rejected,
  and \<^verbatim>\<open>Promise.all\<close> reports the rejection that comes first: that of a lookup before that of
  a save.
\<close>

definition assigned :: "user \<Rightarrow> task \<Rightarrow> task" where
  "assigned u t = t\<lparr>assignedUser := u_id u, assignedUserName := u_name u\<rparr>"

definition unassigned :: "task \<Rightarrow> task" where
  "unassigned t = t\<lparr>assignedUser := [], assignedUserName := ''unassigned''\<rparr>"

fun findEach :: "string list \<Rightarrow> store \<Rightarrow> (store_error + task option) list \<times> store" where
  "findEach [] s = ([], s)"
| "findEach (taskId # rest) s =
     (case Task_findById taskId s of
        (r, s1) \<Rightarrow> (case findEach rest s1 of (rs, s2) \<Rightarrow> (r # rs, s2)))"

text \<open>The callbacks over the answers of the lookups; the rejection of a save, if any.\<close>

fun thenSave ::
  "(task \<Rightarrow> task) \<Rightarrow> (store_error + task option) list \<Rightarrow> store \<Rightarrow> store_error option \<times> store" where
  "thenSave f [] s = (None, s)"
| "thenSave f (Inl e # rs) s = thenSave f rs s"
| "thenSave f (Inr None # rs) s = thenSave f rs s"
| "thenSave f (Inr (Some t) # rs) s =
     (case Task_save (f t) s of
        (r, s1) \<Rightarrow>
          (case thenSave f rs s1 of
             (e, s2) \<Rightarrow> ((case r of Inl err \<Rightarrow> Some err | Inr saved \<Rightarrow> e), s2)))"

fun firstRejected :: "(store_error + task option) list \<Rightarrow> store_error option" where
  "firstRejected [] = None"
| "firstRejected (Inl e # rs) = Some e"
| "firstRejected (Inr x # rs) = firstRejected rs"

text \<open>The first rejection among outcomes given in the order of time.\<close>

fun first_rejection :: "store_error option list \<Rightarrow> store_error option" where
  "first_rejection [] = None"
| "first_rejection (Some e # rs) = Some e"
| "first_rejection (None # rs) = first_rejection rs"

definition Promise_all ::
  "(task \<Rightarrow> task) \<Rightarrow> string list \<Rightarrow> store \<Rightarrow> store_error option \<times> store" where
  "Promise_all f ids s =
     (case findEach ids s of
        (found, s1) \<Rightarrow>
          (case thenSave f found s1 of
             (e, s2) \<Rightarrow> (first_rejection [firstRejected found, e], s2)))"

text \<open>\<^verbatim>\<open>POST /api/users\<close>; \<open>oid\<close> is the id that \<^verbatim>\<open>new User()\<close> draws.\<close>

definition post_users :: "user_body \<Rightarrow> string \<Rightarrow> store \<Rightarrow> response \<times> store" where
  "post_users body oid s =
     (if \<not> given (ub_name body) \<or> \<not> given (ub_email body)
      then (sendError 400 ''User must have a name and email'' None, s)
      else
        (case User_save_new \<lparr>u_id = oid,
                             u_name = or_default (ub_name body) [],
                             u_email = or_default (ub_email body) [],
                             pendingTasks = (case ub_pendingTasks body of Some ts \<Rightarrow> ts | None \<Rightarrow> [])\<rparr> s of
           (Inl err, s1) \<Rightarrow>
             (if err = DuplicateKey then sendError 400 ''User with this email already exists'' None
              else sendError 500 ''Error creating user'' (Some err), s1)
         | (Inr savedUser, s1) \<Rightarrow>
             if length (pendingTasks savedUser) > 0 then
               (case Promise_all (assigned savedUser) (pendingTasks savedUser) s1 of
                  (None, s2) \<Rightarrow> (sendSuccess 201 ''User created successfully'' (UserDoc savedUser), s2)
                | (Some err, s2) \<Rightarrow> (sendError 500 ''Error updating assigned tasks'' (Some err), s2))
             else (sendSuccess 201 ''User created successfully'' (UserDoc savedUser), s1)))"

text \<open>The \<^verbatim>\<open>catch\<close> at the end of \<^verbatim>\<open>PUT /api/users/:id\<close>.\<close>

definition catch_put_users :: "store_error \<Rightarrow> response" where
  "catch_put_users err =
     (if err = DuplicateKey then sendError 400 ''User with this email already exists'' None
      else sendError 500 ''Error updating user'' (Some err))"

text \<open>\<^verbatim>\<open>PUT /api/users/:id\<close>. The handler issues the lookups of the removed tasks, those of the
  added tasks and the bulk rename before any callback runs; the saves follow.\<close>

definition put_users :: "string \<Rightarrow> user_body \<Rightarrow> store \<Rightarrow> response \<times> store" where
  "put_users i body s =
     (if \<not> given (ub_name body) \<or> \<not> given (ub_email body)
      then (sendError 400 ''User must have a name and email'' None, s)
      else
        (case User_findById i s of
           (Inl err, s1) \<Rightarrow> (catch_put_users err, s1)
         | (Inr None, s1) \<Rightarrow> (sendError 404 ''User not found'' None, s1)
         | (Inr (Some u), s1) \<Rightarrow>
            (let oldPendingTasks = pendingTasks u;
                 oldName = u_name u;
                 newPendingTasks = (case ub_pendingTasks body of Some ts \<Rightarrow> ts | None \<Rightarrow> []);
                 newName = or_default (ub_name body) []
             in (case User_save (u\<lparr>u_name := newName,
                                    u_email := or_default (ub_email body) [],
                                    pendingTasks := newPendingTasks\<rparr>) s1 of
                   (Inl err, s2) \<Rightarrow> (catch_put_users err, s2)
                 | (Inr updatedUser, s2) \<Rightarrow>
                    (let removedTasks = filter (\<lambda>taskId. taskId \<notin> set newPendingTasks) oldPendingTasks;
                         addedTasks = filter (\<lambda>taskId. taskId \<notin> set oldPendingTasks) newPendingTasks;
                         (foundRemoved, s3) = findEach removedTasks s2;
                         (foundAdded, s4) = findEach addedTasks s3;
                         (renamed, s5) =
                           (if oldName \<noteq> newName then
                              (case Task_updateMany (u_id updatedUser) newName s4 of
                                 (Inl err, s') \<Rightarrow> (Some err, s')
                               | (Inr x, s') \<Rightarrow> (None, s'))
                            else (None, s4));
                         (e1, s6) = thenSave unassigned foundRemoved s5;
                         (e2, s7) = thenSave (assigned updatedUser) foundAdded s6
                     in (case first_rejection
                                [firstRejected foundRemoved, firstRejected foundAdded, renamed, e1, e2] of
                           Some err \<Rightarrow> (catch_put_users err, s7)
                         | None \<Rightarrow>
                             (sendSuccess 200 ''User updated successfully'' (UserDoc updatedUser), s7)))))))"

text \<open>\<^verbatim>\<open>DELETE /api/users/:id\<close>.\<close>

definition delete_users :: "string \<Rightarrow> store \<Rightarrow> response \<times> store" where
  "delete_users i s =
     (case User_findById i s of
        (Inl err, s1) \<Rightarrow> (sendError 500 ''Error deleting user'' (Some err), s1)
      | (Inr None, s1) \<Rightarrow> (sendError 404 ''User not found'' None, s1)
      | (Inr (Some u), s1) \<Rightarrow>
          (case Promise_all unassigned (pendingTasks u) s1 of
             (Some err, s2) \<Rightarrow> (sendError 500 ''Error deleting user'' (Some err), s2)
           | (None, s2) \<Rightarrow>
               (case User_findByIdAndDelete (u_id u) s2 of
                  (Inl err, s3) \<Rightarrow> (sendError 500 ''Error deleting user'' (Some err), s3)
                | (Inr x, s3) \<Rightarrow> (NoContent 204, s3))))"

section \<open>The invariant of the data model\<close>

text \<open>
  The first invariant of the data model: a task that is assigned and not completed is
  listed in the \<open>pendingTasks\<close> of the user its \<open>assignedUser\<close> names. A task whose
  \<open>assignedUser\<close> names no user is not constrained.
\<close>

definition pendingInvariant :: "store \<Rightarrow> bool" where
  "pendingInvariant s =
     list_all (\<lambda>t. assignedUser t = [] \<or> completed t \<or>
                 (case find (\<lambda>u. u_id u = assignedUser t) (users s) of
                    Some u \<Rightarrow> t_id t \<in> set (pendingTasks u)
                  | None \<Rightarrow> True)) (tasks s)"

section \<open>Sample documents and requests\<close>

definition ann :: user where
  "ann = \<lparr>u_id = ''u1'', u_name = ''Ann'', u_email = ''ann@example.org'', pendingTasks = []\<rparr>"

definition bob :: user where
  "bob = \<lparr>u_id = ''u2'', u_name = ''Bob'', u_email = ''bob@example.org'', pendingTasks = []\<rparr>"

definition done_task :: task where
  "done_task = \<lparr>t_id = ''t1'', t_name = ''Report'', description = [], deadline = ''2026-01-01'',
                 completed = True, assignedUser = ''u1'', assignedUserName = ''Ann''\<rparr>"

definition reopen_body :: task_body where
  "reopen_body = \<lparr>b_name = Some ''Report'', b_description = None, b_deadline = Some ''2026-01-01'',
                   b_completed = Some (JBool False), b_assignedUser = Some ''u1'',
                   b_assignedUserName = Some ''Ann''\<rparr>"

definition open_task :: task where
  "open_task = \<lparr>t_id = ''t2'', t_name = ''Slides'', description = [], deadline = ''2026-02-01'',
                 completed = False, assignedUser = ''u1'', assignedUserName = ''Ann''\<rparr>"

text \<open>Ann with \<open>open_task\<close> pending, and with a second id that names no task.\<close>

definition ann_busy :: user where
  "ann_busy = \<lparr>u_id = ''u1'', u_name = ''Ann'', u_email = ''ann@example.org'',
                pendingTasks = [''t2'', ''t9'']\<rparr>"

text \<open>A task body with the given \<open>completed\<close> and \<open>assignedUser\<close>, and no \<open>assignedUserName\<close>.\<close>

definition slides_body :: "json option \<Rightarrow> string \<Rightarrow> task_body" where
  "slides_body c U = \<lparr>b_name = Some ''Slides'', b_description = None,
                       b_deadline = Some ''2026-02-01'', b_completed = c,
                       b_assignedUser = Some U, b_assignedUserName = None\<rparr>"

definition bob_body :: user_body where
  "bob_body = \<lparr>ub_name = Some ''Bob'', ub_email = Some ''bob@example.org'',
                ub_pendingTasks = Some [''t2'']\<rparr>"

text \<open>A request with no query parameter.\<close>

definition no_params :: req_query where
  "no_params = \<lparr>q_where = None, q_filter = None, q_sort = None, q_select = None,
                 q_skip = None, q_limit = None, q_count = None\<rparr>"

text \<open>
  \<^verbatim>\<open>JSON.parse\<close> on the strings of the examples: the objects below, and \<open>None\<close> for
  the text \<^verbatim>\<open>{\<close>, which is not JSON. No example passes a \<^verbatim>\<open>where\<close> that is not a string, so
  \<^verbatim>\<open>JSON.stringify\<close> is never called there.
\<close>

definition sample_parse :: "string \<Rightarrow> json option" where
  \<open>sample_parse =
     map_of
       [(''{"name":1,"email":0}'', JObj [(''name'', JNum 1), (''email'', JNum 0)]),
        (''{"completed":true}'', JObj [(''completed'', JBool True)]),
        (''{"hasOwnProperty":1}'', JObj [(''hasOwnProperty'', JNum 1)]),
        (''{}'', JObj [])]\<close>

definition sample_stringify :: "qval \<Rightarrow> string" where
  "sample_stringify v = []"

section \<open>Unfolding the model\<close>

lemmas parse_defs = parseQueryParams_def parseWhereFilter_def parseSort_def parseSelect_def
  parseSkip_def parseLimit_def no_options_def

lemmas parseInt_defs = parseInt_def isWhiteSpace_def isRadixDigit_def digitValue_def mathInt_def
  toNumber_def

lemmas sample_defs = ann_def bob_def done_task_def open_task_def ann_busy_def slides_body_def
  bob_body_def reopen_body_def

lemmas store_defs = attempt_def User_findById_def Task_findById_def User_save_def User_save_new_def
  Task_save_def Task_save_new_def User_findByIdAndDelete_def Task_findByIdAndDelete_def
  Task_updateMany_def email_taken_def

lemmas handler_defs = put_tasks_def put_tasks_sync_def resolveUserName_def post_tasks_def delete_tasks_def post_users_def put_users_def
  delete_users_def addPending_def removePending_def fetchUserName_def assigned_def
  unassigned_def Promise_all_def catch_put_users_def completed_of_def sendSuccess_def sendError_def

section \<open>The query interpreter: lemmas\<close>

subsection \<open>parseInt on examples\<close>

lemma bitLength_numeral [simp]:
  "bitLength 0 = 0"
  "bitLength (Suc 0) = 1"
  "bitLength (numeral Num.One) = 1"
  "bitLength (numeral (Num.Bit0 k)) = Suc (bitLength (numeral k))"
  "bitLength (numeral (Num.Bit1 k)) = Suc (bitLength (numeral k))"
proof -
  show "bitLength 0 = 0" by (simp add: bitLength.simps)
  show "bitLength (Suc 0) = 1" by (simp add: bitLength.simps[of "Suc 0"] bitLength.simps[of 0])
  show "bitLength (numeral Num.One) = 1"
    by (simp add: bitLength.simps[of "Suc 0"] bitLength.simps[of 0])
  have "numeral (Num.Bit0 k) div (2::nat) = numeral k" by (simp add: numeral_Bit0_div_2)
  then show "bitLength (numeral (Num.Bit0 k)) = Suc (bitLength (numeral k))"
    by (subst bitLength.simps) simp
  have "numeral (Num.Bit1 k) div (2::nat) = numeral k" by (simp add: numeral_Bit1_div_2)
  then show "bitLength (numeral (Num.Bit1 k)) = Suc (bitLength (numeral k))"
    by (subst bitLength.simps) simp
qed

text \<open>A no-break space before the digits is white space; so is a byte order mark.\<close>

lemma parseInt_no_break_space:
  "parseInt [CHR 0xC2, CHR 0xA0, CHR ''5''] = Some 5"
  "parseInt [CHR 0xEF, CHR 0xBB, CHR 0xBF, CHR ''-'', CHR ''7'', CHR ''x''] = Some (- 7)"
  "parseInt [CHR 0xC2, CHR 0xA0] = None"
  by (simp_all add: parseInt_def isWhiteSpace_def isRadixDigit_def digitValue_def mathInt_def
      toNumber_def)

text \<open>\<open>2 ^ 53 + 1\<close> is no double: it reads as \<open>2 ^ 53\<close>.\<close>

lemma mathInt_example: "mathInt 10 ''9007199254740993'' = 9007199254740993"
  by (simp add: mathInt_def digitValue_def)

lemma toNumber_example: "toNumber 9007199254740993 = 9007199254740992"
  by (simp add: toNumber_def)

lemma parseInt_rounds_to_double: "parseInt ''9007199254740993'' = Some 9007199254740992"
  by (simp add: parseInt_def isWhiteSpace_def isRadixDigit_def digitValue_def mathInt_example
      toNumber_example)

subsection \<open>The steps of the interpreter\<close>

lemma isProjection_own:
  "isProjection False vs = Some (\<forall>v\<in>set vs. v = JNum 1 \<or> v = JNum 0)"
proof (induction vs)
  case Nil
  then show ?case by simp
next
  case (Cons v vs)
  then show ?case by (cases v) auto
qed

lemma isProjection_shadowed: "vs \<noteq> [] \<Longrightarrow> isProjection True vs = None"
  by (cases vs) simp_all

lemma parseQueryParams_InrD:
  assumes "parseQueryParams JSON_parse JSON_stringify q d = Inr r"
  obtains qry o0 o1 o2 o3 o4 where
    "parseWhereFilter JSON_parse JSON_stringify q = Inr (qry, o0)"
    "parseSort JSON_parse q o0 = Inr o1"
    "parseSelect JSON_parse q o1 = Inr o2"
    "parseSkip q o2 = Inr o3"
    "parseLimit q d o3 = Inr o4"
    "r = \<lparr>query = qry, options = o4, count = (q_count q = Some (QStr ''true''))\<rparr>"
  using assms unfolding parseQueryParams_def
  by (auto split: sum.splits prod.splits)

lemma parseQueryParams_InrI:
  assumes "parseWhereFilter JSON_parse JSON_stringify q = Inr (qry, o0)"
    "parseSort JSON_parse q o0 = Inr o1"
    "parseSelect JSON_parse q o1 = Inr o2"
    "parseSkip q o2 = Inr o3"
    "parseLimit q d o3 = Inr o4"
  shows "parseQueryParams JSON_parse JSON_stringify q d =
           Inr \<lparr>query = qry, options = o4, count = (q_count q = Some (QStr ''true''))\<rparr>"
  using assms unfolding parseQueryParams_def by simp

lemma parseSort_absent: "supplied (q_sort q) = None \<Longrightarrow> parseSort JSON_parse q opts = Inr opts"
  by (simp add: parseSort_def)

lemma parseSelect_absent: "supplied (q_select q) = None \<Longrightarrow> parseSelect JSON_parse q opts = Inr opts"
  by (simp add: parseSelect_def)

lemma parseSkip_absent: "supplied (q_skip q) = None \<Longrightarrow> parseSkip q opts = Inr opts"
  by (simp add: parseSkip_def)

lemma parseLimit_absent:
  "supplied (q_limit q) = None \<Longrightarrow>
   parseLimit q d opts = Inr (case d of Some n \<Rightarrow> opts\<lparr>opt_limit := Some n\<rparr> | None \<Rightarrow> opts)"
  by (simp add: parseLimit_def split: option.splits)

lemma parseSort_select: "parseSort JSON_parse q opts = Inr opts' \<Longrightarrow> opt_select opts' = opt_select opts"
  by (auto simp: parseSort_def split: option.splits)

lemma parseSkip_select: "parseSkip q opts = Inr opts' \<Longrightarrow> opt_select opts' = opt_select opts"
  by (auto simp: parseSkip_def split: option.splits)

lemma parseLimit_select: "parseLimit q d opts = Inr opts' \<Longrightarrow> opt_select opts' = opt_select opts"
  by (auto simp: parseLimit_def split: option.splits)

lemma parseWhereFilter_upd:
  "parseWhereFilter JSON_parse JSON_stringify (q\<lparr>q_skip := x\<rparr>) = parseWhereFilter JSON_parse JSON_stringify q"
  "parseWhereFilter JSON_parse JSON_stringify (q\<lparr>q_limit := x\<rparr>) = parseWhereFilter JSON_parse JSON_stringify q"
  by (simp_all add: parseWhereFilter_def cong: option.case_cong)

lemma parseSort_upd:
  "parseSort JSON_parse (q\<lparr>q_skip := x\<rparr>) opts = parseSort JSON_parse q opts"
  "parseSort JSON_parse (q\<lparr>q_limit := x\<rparr>) opts = parseSort JSON_parse q opts"
  "parseSort JSON_parse (q\<lparr>q_filter := f\<rparr>) opts = parseSort JSON_parse q opts"
  by (simp_all add: parseSort_def)

lemma parseSelect_upd:
  "parseSelect JSON_parse (q\<lparr>q_skip := x\<rparr>) opts = parseSelect JSON_parse q opts"
  "parseSelect JSON_parse (q\<lparr>q_limit := x\<rparr>) opts = parseSelect JSON_parse q opts"
  "parseSelect JSON_parse (q\<lparr>q_filter := f\<rparr>) opts = parseSelect JSON_parse q opts"
  by (simp_all add: parseSelect_def)

lemma parseSkip_upd:
  "parseSkip (q\<lparr>q_limit := x\<rparr>) opts = parseSkip q opts"
  "parseSkip (q\<lparr>q_filter := f\<rparr>) opts = parseSkip q opts"
  by (simp_all add: parseSkip_def)

lemma parseLimit_upd:
  "parseLimit (q\<lparr>q_skip := x\<rparr>) d opts = parseLimit q d opts"
  "parseLimit (q\<lparr>q_filter := f\<rparr>) d opts = parseLimit q d opts"
  by (simp_all add: parseLimit_def)

lemmas parse_upd = parseWhereFilter_upd parseSort_upd parseSelect_upd parseSkip_upd parseLimit_upd

lemma where_ignores_filter:
  assumes "supplied (q_where q) = Some w"
  shows "parseQueryParams JSON_parse JSON_stringify (q\<lparr>q_filter := f\<rparr>) d =
         parseQueryParams JSON_parse JSON_stringify q d"
proof -
  have "parseWhereFilter JSON_parse JSON_stringify (q\<lparr>q_filter := f\<rparr>) =
        parseWhereFilter JSON_parse JSON_stringify q"
    using assms by (simp add: parseWhereFilter_def)
  then show ?thesis
    by (simp add: parseQueryParams_def parse_upd split: sum.splits prod.splits)
qed

lemma where_step:
  assumes "supplied (q_where q) = Some w"
  shows "parseWhereFilter JSON_parse JSON_stringify q =
           (case JSON_parse (whereParam JSON_stringify w) of
              None \<Rightarrow> Inl ''Invalid where parameter. Must be valid JSON.''
            | Some P \<Rightarrow> Inr (P, no_options))"
  using assms by (simp add: parseWhereFilter_def)















section \<open>The dual reading of filter (C2)\<close>

text \<open>
  C2. With no \<^verbatim>\<open>where\<close> supplied and a \<^verbatim>\<open>filter\<close> string that parses to the object \<open>P\<close>. The claim
  reads every such \<open>P\<close> as a projection or as a predicate. The interpreter does so for every
  \<open>P\<close> that has no key \<^verbatim>\<open>hasOwnProperty\<close>: when \<open>P\<close> is not empty and each of its values is the
  number 1 or the number 0, it leaves the filter predicate \<^verbatim>\<open>{}\<close> and sets the projection to
  \<open>P\<close>; for every other such \<open>P\<close>, the empty object among them, the predicate is \<open>P\<close> and the
  projection stays unset (the projection is read where no \<^verbatim>\<open>select\<close> parameter replaces it,
  and the request parses when \<^verbatim>\<open>sort\<close>, \<^verbatim>\<open>select\<close>, \<^verbatim>\<open>skip\<close> and \<^verbatim>\<open>limit\<close> are absent). A \<open>P\<close> with a
  key \<^verbatim>\<open>hasOwnProperty\<close> is read as neither: the guard of line 28 calls that property of \<open>P\<close>,
  which throws, and the interpreter returns the error kept for a filter that is not JSON,
  whatever the values of \<open>P\<close> and the other parameters are.
\<close>

theorem C2_filter_reading_breaks_on_own_hasOwnProperty:
  assumes "supplied (q_where q) = None"
    and "q_filter q = Some (QStr s)" and "s \<noteq> []"
    and "JSON_parse s = Some (JObj P)"
  shows "(''hasOwnProperty'' \<in> set (map fst P) \<longrightarrow>
            parseQueryParams JSON_parse JSON_stringify q d =
              Inl ''Invalid filter parameter. Must be valid JSON.'') \<and>
         (''hasOwnProperty'' \<notin> set (map fst P) \<longrightarrow>
            (\<forall>r. parseQueryParams JSON_parse JSON_stringify q d = Inr r \<longrightarrow>
               query r = (if P \<noteq> [] \<and> (\<forall>v\<in>set (map snd P). v = JNum 1 \<or> v = JNum 0)
                          then JObj [] else JObj P) \<and>
               (supplied (q_select q) = None \<longrightarrow>
                  opt_select (options r) =
                    (if P \<noteq> [] \<and> (\<forall>v\<in>set (map snd P). v = JNum 1 \<or> v = JNum 0)
                     then Some (JObj P) else None))) \<and>
            (supplied (q_sort q) = None \<and> supplied (q_select q) = None \<and>
             supplied (q_skip q) = None \<and> supplied (q_limit q) = None \<longrightarrow>
               (\<exists>r. parseQueryParams JSON_parse JSON_stringify q d = Inr r)))"
proof (rule conjI; rule impI)
  assume own: "''hasOwnProperty'' \<in> set (map fst P)"
  then have "map snd P \<noteq> []" by auto
  then have "isProjection True (map snd P) = None" by (rule isProjection_shadowed)
  then have "parseWhereFilter JSON_parse JSON_stringify q =
               Inl ''Invalid filter parameter. Must be valid JSON.''"
    using assms own by (simp add: parseWhereFilter_def)
  then show "parseQueryParams JSON_parse JSON_stringify q d =
               Inl ''Invalid filter parameter. Must be valid JSON.''"
    by (simp add: parseQueryParams_def)
next
  let ?proj = "P \<noteq> [] \<and> (\<forall>v\<in>set (map snd P). v = JNum 1 \<or> v = JNum 0)"
  let ?qry = "if ?proj then JObj [] else JObj P"
  let ?sel = "if ?proj then Some (JObj P) else None"
  assume own: "''hasOwnProperty'' \<notin> set (map fst P)"
  have step: "parseWhereFilter JSON_parse JSON_stringify q = Inr (?qry, no_options\<lparr>opt_select := ?sel\<rparr>)"
    using assms own by (auto simp: parseWhereFilter_def isProjection_own no_options_def)
  have result: "query r = ?qry \<and> (supplied (q_select q) = None \<longrightarrow> opt_select (options r) = ?sel)"
    if "parseQueryParams JSON_parse JSON_stringify q d = Inr r" for r
  proof -
    from that obtain qry o0 o1 o2 o3 o4 where
      w: "parseWhereFilter JSON_parse JSON_stringify q = Inr (qry, o0)"
      and so: "parseSort JSON_parse q o0 = Inr o1"
      and se: "parseSelect JSON_parse q o1 = Inr o2"
      and sk: "parseSkip q o2 = Inr o3"
      and li: "parseLimit q d o3 = Inr o4"
      and r: "r = \<lparr>query = qry, options = o4, count = (q_count q = Some (QStr ''true''))\<rparr>"
      by (rule parseQueryParams_InrD)
    from w step have "qry = ?qry \<and> o0 = no_options\<lparr>opt_select := ?sel\<rparr>" by simp
    then have q0: "qry = ?qry" and o0: "opt_select o0 = ?sel" by simp_all
    have "opt_select o4 = ?sel" if "supplied (q_select q) = None"
    proof -
      have "o2 = o1" using se that by (simp add: parseSelect_absent)
      then have "opt_select o4 = opt_select o0"
        using parseSort_select[OF so] parseSkip_select[OF sk] parseLimit_select[OF li] by simp
      then show ?thesis using o0 by simp
    qed
    then show ?thesis using q0 r by simp
  qed
  have total: "\<exists>r. parseQueryParams JSON_parse JSON_stringify q d = Inr r"
    if "supplied (q_sort q) = None \<and> supplied (q_select q) = None \<and>
        supplied (q_skip q) = None \<and> supplied (q_limit q) = None"
    using that step
    by (simp add: parseQueryParams_def parseSort_absent parseSelect_absent parseSkip_absent
        parseLimit_absent)
  show "(\<forall>r. parseQueryParams JSON_parse JSON_stringify q d = Inr r \<longrightarrow>
            query r = ?qry \<and>
            (supplied (q_select q) = None \<longrightarrow> opt_select (options r) = ?sel)) \<and>
        (supplied (q_sort q) = None \<and> supplied (q_select q) = None \<and>
         supplied (q_skip q) = None \<and> supplied (q_limit q) = None \<longrightarrow>
           (\<exists>r. parseQueryParams JSON_parse JSON_stringify q d = Inr r))"
    using result total by blast
qed

text \<open>
  The request \<^verbatim>\<open>filter={"hasOwnProperty":1}\<close>, a JSON object whose one value is the number 1, is
  answered with the error; the three shapes without that key are read as the claim says: a
  projection, a predicate, and the empty object.
\<close>

theorem C2_filter_reading_breaks_on_own_hasOwnProperty_witness:
  \<open>parseQueryParams sample_parse sample_stringify
      (no_params\<lparr>q_filter := Some (QStr ''{"hasOwnProperty":1}'')\<rparr>) None =
     Inl ''Invalid filter parameter. Must be valid JSON.'' \<and>
   (\<exists>r. parseQueryParams sample_parse sample_stringify
          (no_params\<lparr>q_filter := Some (QStr ''{"name":1,"email":0}'')\<rparr>) None = Inr r \<and>
        query r = JObj [] \<and>
        opt_select (options r) = Some (JObj [(''name'', JNum 1), (''email'', JNum 0)])) \<and>
   (\<exists>r. parseQueryParams sample_parse sample_stringify
          (no_params\<lparr>q_filter := Some (QStr ''{"completed":true}'')\<rparr>) None = Inr r \<and>
        query r = JObj [(''completed'', JBool True)] \<and>
        opt_select (options r) = None) \<and>
   (\<exists>r. parseQueryParams sample_parse sample_stringify
          (no_params\<lparr>q_filter := Some (QStr ''{}'')\<rparr>) None = Inr r \<and>
        query r = JObj [] \<and>
        opt_select (options r) = None)\<close>
proof -
  have z: \<open>parseQueryParams sample_parse sample_stringify
      (no_params\<lparr>q_filter := Some (QStr ''{"hasOwnProperty":1}'')\<rparr>) None =
     Inl ''Invalid filter parameter. Must be valid JSON.''\<close>
    using C2_filter_reading_breaks_on_own_hasOwnProperty
      [where q = \<open>no_params\<lparr>q_filter := Some (QStr ''{"hasOwnProperty":1}'')\<rparr>\<close>
         and s = \<open>''{"hasOwnProperty":1}''\<close> and JSON_parse = sample_parse
         and P = \<open>[(''hasOwnProperty'', JNum 1)]\<close>
         and JSON_stringify = sample_stringify and d = None]
    by (auto simp: no_params_def sample_parse_def)
  have a: \<open>\<exists>r. parseQueryParams sample_parse sample_stringify
          (no_params\<lparr>q_filter := Some (QStr ''{"name":1,"email":0}'')\<rparr>) None = Inr r \<and>
        query r = JObj [] \<and>
        opt_select (options r) = Some (JObj [(''name'', JNum 1), (''email'', JNum 0)])\<close>
    using C2_filter_reading_breaks_on_own_hasOwnProperty
      [where q = \<open>no_params\<lparr>q_filter := Some (QStr ''{"name":1,"email":0}'')\<rparr>\<close>
         and s = \<open>''{"name":1,"email":0}''\<close> and JSON_parse = sample_parse
         and P = \<open>[(''name'', JNum 1), (''email'', JNum 0)]\<close>
         and JSON_stringify = sample_stringify and d = None]
    by (auto simp: no_params_def sample_parse_def)
  have b: \<open>\<exists>r. parseQueryParams sample_parse sample_stringify
          (no_params\<lparr>q_filter := Some (QStr ''{"completed":true}'')\<rparr>) None = Inr r \<and>
        query r = JObj [(''completed'', JBool True)] \<and>
        opt_select (options r) = None\<close>
    using C2_filter_reading_breaks_on_own_hasOwnProperty
      [where q = \<open>no_params\<lparr>q_filter := Some (QStr ''{"completed":true}'')\<rparr>\<close>
         and s = \<open>''{"completed":true}''\<close> and JSON_parse = sample_parse
         and P = \<open>[(''completed'', JBool True)]\<close>
         and JSON_stringify = sample_stringify and d = None]
    by (auto simp: no_params_def sample_parse_def)
  have c: \<open>\<exists>r. parseQueryParams sample_parse sample_stringify
          (no_params\<lparr>q_filter := Some (QStr ''{}'')\<rparr>) None = Inr r \<and>
        query r = JObj [] \<and>
        opt_select (options r) = None\<close>
    using C2_filter_reading_breaks_on_own_hasOwnProperty
      [where q = \<open>no_params\<lparr>q_filter := Some (QStr ''{}'')\<rparr>\<close>
         and s = \<open>''{}''\<close> and JSON_parse = sample_parse
         and P = \<open>[]\<close>
         and JSON_stringify = sample_stringify and d = None]
    by (auto simp: no_params_def sample_parse_def)
  from z a b c show ?thesis by blast
qed

section \<open>Precedence of where, and the parse errors (C5)\<close>

text \<open>
  The claim gives one message, \<^verbatim>\<open>Invalid where/filter parameter. Must be valid JSON.\<close>, for
  both parameters. The interpreter has a message for each: a \<^verbatim>\<open>where\<close> that is not JSON
  yields \<^verbatim>\<open>Invalid where parameter. Must be valid JSON.\<close>
\<close>

theorem C5_where_error_message_counterexample:
  \<open>parseQueryParams sample_parse sample_stringify (no_params\<lparr>q_where := Some (QStr ''{'')\<rparr>) None =
     Inl ''Invalid where parameter. Must be valid JSON.'' \<and>
   parseQueryParams sample_parse sample_stringify (no_params\<lparr>q_where := Some (QStr ''{'')\<rparr>) None \<noteq>
     Inl ''Invalid where/filter parameter. Must be valid JSON.''\<close>
  by (simp add: parse_defs no_params_def sample_parse_def)

text \<open>
  C5, amended. A supplied (non-empty) \<^verbatim>\<open>where\<close> takes precedence: the result does not depend
  on \<^verbatim>\<open>filter\<close> at all. When \<^verbatim>\<open>where\<close> parses to \<open>P\<close>, whatever the shape of \<open>P\<close>, the filter
  predicate of every result is \<open>P\<close>, and there is a result when \<^verbatim>\<open>sort\<close>, \<^verbatim>\<open>select\<close>, \<^verbatim>\<open>skip\<close> and
  \<^verbatim>\<open>limit\<close> are absent. A \<^verbatim>\<open>where\<close> that fails to parse gives the error
  \<^verbatim>\<open>Invalid where parameter. Must be valid JSON.\<close>, and with no \<^verbatim>\<open>where\<close> a \<^verbatim>\<open>filter\<close> string that
  fails to parse gives \<^verbatim>\<open>Invalid filter parameter. Must be valid JSON.\<close>
\<close>

theorem C5_where_precedence_and_errors:
  "(supplied (q_where q) = Some w \<longrightarrow>
      parseQueryParams JSON_parse JSON_stringify (q\<lparr>q_filter := f\<rparr>) d =
        parseQueryParams JSON_parse JSON_stringify q d \<and>
      (case JSON_parse (whereParam JSON_stringify w) of
         None \<Rightarrow>
           parseQueryParams JSON_parse JSON_stringify q d =
             Inl ''Invalid where parameter. Must be valid JSON.''
       | Some P \<Rightarrow>
           (\<forall>r. parseQueryParams JSON_parse JSON_stringify q d = Inr r \<longrightarrow> query r = P) \<and>
           (supplied (q_sort q) = None \<and> supplied (q_select q) = None \<and>
            supplied (q_skip q) = None \<and> supplied (q_limit q) = None \<longrightarrow>
              (\<exists>r. parseQueryParams JSON_parse JSON_stringify q d = Inr r)))) \<and>
   (supplied (q_where q) = None \<and> supplied (q_filter q) = Some (QStr s) \<and> JSON_parse s = None \<longrightarrow>
      parseQueryParams JSON_parse JSON_stringify q d =
        Inl ''Invalid filter parameter. Must be valid JSON.'')"
proof (intro conjI impI)
  assume w: "supplied (q_where q) = Some w"
  show "parseQueryParams JSON_parse JSON_stringify (q\<lparr>q_filter := f\<rparr>) d =
        parseQueryParams JSON_parse JSON_stringify q d"
    using w by (rule where_ignores_filter)
  show "case JSON_parse (whereParam JSON_stringify w) of
         None \<Rightarrow>
           parseQueryParams JSON_parse JSON_stringify q d =
             Inl ''Invalid where parameter. Must be valid JSON.''
       | Some P \<Rightarrow>
           (\<forall>r. parseQueryParams JSON_parse JSON_stringify q d = Inr r \<longrightarrow> query r = P) \<and>
           (supplied (q_sort q) = None \<and> supplied (q_select q) = None \<and>
            supplied (q_skip q) = None \<and> supplied (q_limit q) = None \<longrightarrow>
              (\<exists>r. parseQueryParams JSON_parse JSON_stringify q d = Inr r))"
  proof (cases "JSON_parse (whereParam JSON_stringify w)")
    case None
    then have "parseWhereFilter JSON_parse JSON_stringify q =
        Inl ''Invalid where parameter. Must be valid JSON.''"
      using where_step[OF w] by simp
    then show ?thesis using None by (simp add: parseQueryParams_def)
  next
    case (Some P)
    then have step: "parseWhereFilter JSON_parse JSON_stringify q = Inr (P, no_options)"
      using where_step[OF w] by simp
    have "query r = P" if "parseQueryParams JSON_parse JSON_stringify q d = Inr r" for r
      using that step by (elim parseQueryParams_InrD) simp
    moreover have "\<exists>r. parseQueryParams JSON_parse JSON_stringify q d = Inr r"
      if "supplied (q_sort q) = None \<and> supplied (q_select q) = None \<and>
          supplied (q_skip q) = None \<and> supplied (q_limit q) = None"
      using that step
      by (simp add: parseQueryParams_def parseSort_absent parseSelect_absent parseSkip_absent
          parseLimit_absent)
    ultimately show ?thesis using Some by simp
  qed
next
  assume "supplied (q_where q) = None \<and> supplied (q_filter q) = Some (QStr s) \<and> JSON_parse s = None"
  then have "parseWhereFilter JSON_parse JSON_stringify q =
      Inl ''Invalid filter parameter. Must be valid JSON.''"
    by (simp add: parseWhereFilter_def)
  then show "parseQueryParams JSON_parse JSON_stringify q d =
        Inl ''Invalid filter parameter. Must be valid JSON.''"
    by (simp add: parseQueryParams_def)
qed

text \<open>
  A \<^verbatim>\<open>where\<close> beside a \<^verbatim>\<open>filter\<close> that alone would be a projection, and the two errors.
\<close>

theorem C5_where_precedence_and_errors_witness:
  \<open>(\<exists>r. parseQueryParams sample_parse sample_stringify
          (no_params\<lparr>q_where := Some (QStr ''{"completed":true}''),
                      q_filter := Some (QStr ''{"name":1,"email":0}'')\<rparr>) None = Inr r \<and>
        query r = JObj [(''completed'', JBool True)]) \<and>
   parseQueryParams sample_parse sample_stringify
     (no_params\<lparr>q_where := Some (QStr ''{"completed":true}''),
                 q_filter := Some (QStr ''{"name":1,"email":0}'')\<rparr>) None =
   parseQueryParams sample_parse sample_stringify
     (no_params\<lparr>q_where := Some (QStr ''{"completed":true}'')\<rparr>) None \<and>
   parseQueryParams sample_parse sample_stringify
     (no_params\<lparr>q_where := Some (QStr ''{''), q_filter := Some (QStr ''{}'')\<rparr>) None =
     Inl ''Invalid where parameter. Must be valid JSON.'' \<and>
   parseQueryParams sample_parse sample_stringify (no_params\<lparr>q_filter := Some (QStr ''{'')\<rparr>) None =
     Inl ''Invalid filter parameter. Must be valid JSON.''\<close>
proof -
  have a: \<open>(\<exists>r. parseQueryParams sample_parse sample_stringify
          (no_params\<lparr>q_where := Some (QStr ''{"completed":true}''),
                      q_filter := Some (QStr ''{"name":1,"email":0}'')\<rparr>) None = Inr r \<and>
        query r = JObj [(''completed'', JBool True)])\<close>
    using C5_where_precedence_and_errors
      [where q = \<open>no_params\<lparr>q_where := Some (QStr ''{"completed":true}''),
                      q_filter := Some (QStr ''{"name":1,"email":0}'')\<rparr>\<close>
         and w = \<open>QStr ''{"completed":true}''\<close> and JSON_parse = sample_parse
         and JSON_stringify = sample_stringify and d = None]
    by (auto simp: no_params_def sample_parse_def)
  have b: \<open>parseQueryParams sample_parse sample_stringify
     (no_params\<lparr>q_where := Some (QStr ''{"completed":true}''),
                 q_filter := Some (QStr ''{"name":1,"email":0}'')\<rparr>) None =
   parseQueryParams sample_parse sample_stringify
     (no_params\<lparr>q_where := Some (QStr ''{"completed":true}'')\<rparr>) None\<close>
    using C5_where_precedence_and_errors
      [where q = \<open>no_params\<lparr>q_where := Some (QStr ''{"completed":true}'')\<rparr>\<close>
         and w = \<open>QStr ''{"completed":true}''\<close> and JSON_parse = sample_parse
         and f = \<open>Some (QStr ''{"name":1,"email":0}'')\<close>
         and JSON_stringify = sample_stringify and d = None]
    by (simp add: no_params_def)
  have c: \<open>parseQueryParams sample_parse sample_stringify
     (no_params\<lparr>q_where := Some (QStr ''{''), q_filter := Some (QStr ''{}'')\<rparr>) None =
     Inl ''Invalid where parameter. Must be valid JSON.''\<close>
    using C5_where_precedence_and_errors
      [where q = \<open>no_params\<lparr>q_where := Some (QStr ''{''), q_filter := Some (QStr ''{}'')\<rparr>\<close>
         and w = \<open>QStr ''{''\<close> and JSON_parse = sample_parse
         and JSON_stringify = sample_stringify and d = None]
    by (simp add: no_params_def sample_parse_def)
  have d: \<open>parseQueryParams sample_parse sample_stringify (no_params\<lparr>q_filter := Some (QStr ''{'')\<rparr>) None =
     Inl ''Invalid filter parameter. Must be valid JSON.''\<close>
    using C5_where_precedence_and_errors
      [where q = \<open>no_params\<lparr>q_filter := Some (QStr ''{'')\<rparr>\<close>
         and s = \<open>''{''\<close> and JSON_parse = sample_parse
         and JSON_stringify = sample_stringify and d = None]
    by (simp add: no_params_def sample_parse_def)
  from a b c d show ?thesis by blast
qed

section \<open>Non-numeric skip and limit, and the default limit (C6)\<close>




text \<open>
  A no-break space before the digits is white space to \<^verbatim>\<open>parseInt\<close>, so \<^verbatim>\<open>skip\<close> is read as 5;
  an empty \<^verbatim>\<open>skip\<close> is passed over without an error.
\<close>

lemma skip_no_break_space_accepted:
  "parseQueryParams sample_parse sample_stringify
     (no_params\<lparr>q_skip := Some (QStr [CHR 0xC2, CHR 0xA0, CHR ''5''])\<rparr>) None =
     Inr \<lparr>query = JObj [],
          options = \<lparr>opt_sort = None, opt_select = None, opt_skip = Some 5, opt_limit = None\<rparr>,
          count = False\<rparr>"
  by (simp add: parse_defs no_params_def parseInt_defs)

lemma skip_empty_passed_over:
  "parseQueryParams sample_parse sample_stringify (no_params\<lparr>q_skip := Some (QStr [])\<rparr>) None =
     Inr \<lparr>query = JObj [],
          options = \<lparr>opt_sort = None, opt_select = None, opt_skip = None, opt_limit = None\<rparr>,
          count = False\<rparr>"
  by (simp add: parse_defs no_params_def)

section \<open>A skip or limit of zero (C9)\<close>



section \<open>The store: lemmas\<close>

lemma find_id: "find (\<lambda>d. f d = i) xs = Some x \<Longrightarrow> f x = i"
  by (induction xs) (auto split: if_splits)

lemma find_replace:
  "f y = j \<Longrightarrow>
   find (\<lambda>d. f d = i) (map (\<lambda>d. if f d = j then y else d) xs) =
     (if i = j then map_option (\<lambda>x. y) (find (\<lambda>d. f d = j) xs) else find (\<lambda>d. f d = i) xs)"
  by (induction xs) auto

lemma find_append_new:
  "\<not> list_ex (\<lambda>d. f d = f y) xs \<Longrightarrow>
   find (\<lambda>d. f d = i) (xs @ [y]) = (if i = f y then Some y else find (\<lambda>d. f d = i) xs)"
  by (induction xs) auto

lemma find_filter_out:
  "find (\<lambda>d. f d = i) (filter (\<lambda>d. f d \<noteq> j) xs) =
     (if i = j then None else find (\<lambda>d. f d = i) xs)"
  by (induction xs) auto

lemma find_None_list_ex: "find P xs = None \<longleftrightarrow> \<not> list_ex P xs"
  by (induction xs) auto

subsection \<open>A store that rejects nothing\<close>

lemma attempt_nofault: "faults s = [] \<Longrightarrow> attempt s = (False, s)"
  by (simp add: attempt_def)

lemma User_findById_nofault:
  "faults s = [] \<Longrightarrow> User_findById i s = (Inr (find (\<lambda>u. u_id u = i) (users s)), s)"
  by (simp add: User_findById_def attempt_nofault)

lemma Task_findById_nofault:
  "faults s = [] \<Longrightarrow> Task_findById i s = (Inr (find (\<lambda>t. t_id t = i) (tasks s)), s)"
  by (simp add: Task_findById_def attempt_nofault)

lemma Task_save_nofault:
  "faults s = [] \<Longrightarrow>
   Task_save t s = (Inr t, s\<lparr>tasks := map (\<lambda>d. if t_id d = t_id t then t else d) (tasks s)\<rparr>)"
  by (simp add: Task_save_def attempt_nofault)

lemma Task_save_new_nofault:
  "faults s = [] \<Longrightarrow> \<not> list_ex (\<lambda>d. t_id d = t_id t) (tasks s) \<Longrightarrow>
   Task_save_new t s = (Inr t, s\<lparr>tasks := tasks s @ [t]\<rparr>)"
  by (simp add: Task_save_new_def attempt_nofault)

lemma User_save_pending_nofault:
  assumes "faults s = []" "find (\<lambda>d. u_id d = i) (users s) = Some u"
  shows "User_save (u\<lparr>pendingTasks := p\<rparr>) s =
           (Inr (u\<lparr>pendingTasks := p\<rparr>),
            s\<lparr>users := map (\<lambda>d. if u_id d = i then u\<lparr>pendingTasks := p\<rparr> else d) (users s)\<rparr>)"
proof -
  have "u_id u = i" using assms(2) by (rule find_id)
  then show ?thesis using assms by (simp add: User_save_def attempt_nofault)
qed

lemma fetchUserName_nofault:
  "faults s = [] \<Longrightarrow>
   fetchUserName i s =
     (case find (\<lambda>u. u_id u = i) (users s) of Some u \<Rightarrow> u_name u | None \<Rightarrow> ''unassigned'', s)"
  by (simp add: fetchUserName_def User_findById_nofault split: option.splits)

lemma resolveUserName_nofault:
  "faults s = [] \<Longrightarrow> snd (resolveUserName i n s) = s"
  by (simp add: resolveUserName_def fetchUserName_nofault)

text \<open>The state the add block and the remove block leave, without failures.\<close>

lemma addPending_nofault:
  assumes "faults s = []"
  shows "fst (addPending i k s) = Inr ()"
    and "faults (snd (addPending i k s)) = []"
    and "tasks (snd (addPending i k s)) = tasks s"
    and "find (\<lambda>d. u_id d = j) (users (snd (addPending i k s))) =
           (if j = i
            then map_option (\<lambda>u. u\<lparr>pendingTasks :=
                    if k \<in> set (pendingTasks u) then pendingTasks u else pendingTasks u @ [k]\<rparr>)
                   (find (\<lambda>d. u_id d = i) (users s))
            else find (\<lambda>d. u_id d = j) (users s))"
proof -
  show "fst (addPending i k s) = Inr ()"
    using assms
    by (simp add: addPending_def User_findById_nofault User_save_pending_nofault split: option.splits)
  show "faults (snd (addPending i k s)) = []"
    using assms
    by (simp add: addPending_def User_findById_nofault User_save_pending_nofault split: option.splits)
  show "tasks (snd (addPending i k s)) = tasks s"
    using assms
    by (simp add: addPending_def User_findById_nofault User_save_pending_nofault split: option.splits)
  show "find (\<lambda>d. u_id d = j) (users (snd (addPending i k s))) =
           (if j = i
            then map_option (\<lambda>u. u\<lparr>pendingTasks :=
                    if k \<in> set (pendingTasks u) then pendingTasks u else pendingTasks u @ [k]\<rparr>)
                   (find (\<lambda>d. u_id d = i) (users s))
            else find (\<lambda>d. u_id d = j) (users s))"
  proof (cases "find (\<lambda>d. u_id d = i) (users s)")
    case None
    then show ?thesis using assms by (simp add: addPending_def User_findById_nofault)
  next
    case (Some u)
    have "u_id u = i" using Some by (rule find_id)
    then show ?thesis
      using assms Some
      by (simp add: addPending_def User_findById_nofault User_save_pending_nofault find_replace)
  qed
qed

lemma removePending_nofault:
  assumes "faults s = []"
  shows "fst (removePending i k s) = Inr ()"
    and "faults (snd (removePending i k s)) = []"
    and "tasks (snd (removePending i k s)) = tasks s"
    and "find (\<lambda>d. u_id d = j) (users (snd (removePending i k s))) =
           (if j = i
            then map_option (\<lambda>u. u\<lparr>pendingTasks := filter (\<lambda>x. x \<noteq> k) (pendingTasks u)\<rparr>)
                   (find (\<lambda>d. u_id d = i) (users s))
            else find (\<lambda>d. u_id d = j) (users s))"
proof -
  show "fst (removePending i k s) = Inr ()"
    using assms
    by (simp add: removePending_def User_findById_nofault User_save_pending_nofault split: option.splits)
  show "faults (snd (removePending i k s)) = []"
    using assms
    by (simp add: removePending_def User_findById_nofault User_save_pending_nofault split: option.splits)
  show "tasks (snd (removePending i k s)) = tasks s"
    using assms
    by (simp add: removePending_def User_findById_nofault User_save_pending_nofault split: option.splits)
  show "find (\<lambda>d. u_id d = j) (users (snd (removePending i k s))) =
           (if j = i
            then map_option (\<lambda>u. u\<lparr>pendingTasks := filter (\<lambda>x. x \<noteq> k) (pendingTasks u)\<rparr>)
                   (find (\<lambda>d. u_id d = i) (users s))
            else find (\<lambda>d. u_id d = j) (users s))"
  proof (cases "find (\<lambda>d. u_id d = i) (users s)")
    case None
    then show ?thesis using assms by (simp add: removePending_def User_findById_nofault)
  next
    case (Some u)
    have "u_id u = i" using Some by (rule find_id)
    then show ?thesis
      using assms Some
      by (simp add: removePending_def User_findById_nofault User_save_pending_nofault find_replace)
  qed
qed

subsection \<open>Any plan of failures\<close>

lemma attempt_keeps: "tasks (snd (attempt s)) = tasks s" "users (snd (attempt s)) = users s"
  by (simp_all add: attempt_def split: list.splits)

lemma User_findById_keeps:
  "tasks (snd (User_findById i s)) = tasks s" "users (snd (User_findById i s)) = users s"
  by (simp_all add: User_findById_def case_prod_unfold Let_def attempt_keeps)

lemma User_save_keeps_tasks: "tasks (snd (User_save u s)) = tasks s"
  by (simp add: User_save_def case_prod_unfold Let_def attempt_keeps)

lemma fetchUserName_keeps:
  "tasks (snd (fetchUserName i s)) = tasks s" "users (snd (fetchUserName i s)) = users s"
  by (simp_all add: fetchUserName_def case_prod_unfold User_findById_keeps
      split: sum.splits option.splits)

lemma resolveUserName_keeps:
  "tasks (snd (resolveUserName i n s)) = tasks s" "users (snd (resolveUserName i n s)) = users s"
  by (simp_all add: resolveUserName_def fetchUserName_keeps)

lemma addPending_keeps_tasks: "tasks (snd (addPending i k s)) = tasks s"
  by (simp add: addPending_def case_prod_unfold User_findById_keeps User_save_keeps_tasks
      split: sum.splits option.splits)

lemma removePending_keeps_tasks: "tasks (snd (removePending i k s)) = tasks s"
  by (simp add: removePending_def case_prod_unfold User_findById_keeps User_save_keeps_tasks
      split: sum.splits option.splits)

lemma Task_save_new_cases:
  assumes "Task_save_new t s = (r, s')"
  shows "(r = Inr t \<and> tasks s' = tasks s @ [t] \<and> \<not> list_ex (\<lambda>d. t_id d = t_id t) (tasks s)) \<or>
         ((\<exists>e. r = Inl e) \<and> tasks s' = tasks s)"
  using assms
  by (auto simp: Task_save_new_def attempt_def Let_def split: list.splits if_splits)

lemma Task_save_cases:
  assumes "Task_save t s = (r, s')"
  shows "(r = Inr t \<and> tasks s' = map (\<lambda>d. if t_id d = t_id t then t else d) (tasks s)) \<or>
         ((\<exists>e. r = Inl e) \<and> tasks s' = tasks s)"
  using assms
  by (auto simp: Task_save_def attempt_def Let_def split: list.splits if_splits)

lemma Task_findById_Some:
  assumes "Task_findById i s = (Inr (Some t), s1)"
  shows "find (\<lambda>d. t_id d = i) (tasks s) = Some t \<and> tasks s1 = tasks s"
  using assms
  by (auto simp: Task_findById_def attempt_def Let_def split: list.splits if_splits)

lemma put_tasks_sync_keeps_tasks: "tasks (snd (put_tasks_sync U1 c1 U2 c2 t' s)) = tasks s"
  by (simp add: put_tasks_sync_def Let_def case_prod_unfold addPending_keeps_tasks
      removePending_keeps_tasks split: sum.splits)

lemma put_tasks_sync_response:
  "fst (put_tasks_sync U1 c1 U2 c2 t' s) = Json 200 m d \<Longrightarrow> d = TaskDoc t'"
  by (auto simp: put_tasks_sync_def Let_def case_prod_unfold sendSuccess_def sendError_def
      split: sum.splits if_splits)

text \<open>What a POST leaves, by its response.\<close>

lemma post_tasks_cases:
  assumes "post_tasks body oid s = (r, s')"
  shows "(r = Json 400 ''Task must have a name and deadline'' Null \<and> s' = s) \<or>
         ((\<exists>e. r = Json 500 ''Error creating task'' (ErrMessage e)) \<and> tasks s' = tasks s) \<or>
         (\<exists>t. r = Json 201 ''Task created successfully'' (TaskDoc t) \<and>
              t_id t = oid \<and> completed t = completed_of (b_completed body) \<and>
              tasks s' = tasks s @ [t] \<and> \<not> list_ex (\<lambda>d. t_id d = oid) (tasks s))"
proof (cases "\<not> given (b_name body) \<or> \<not> given (b_deadline body)")
  case True
  then show ?thesis using assms by (auto simp: post_tasks_def sendError_def)
next
  case False
  let ?s1 = "snd (resolveUserName (or_default (b_assignedUser body) []) (b_assignedUserName body) s)"
  let ?t = "\<lparr>t_id = oid,
             t_name = or_default (b_name body) [],
             description = or_default (b_description body) [],
             deadline = or_default (b_deadline body) [],
             completed = completed_of (b_completed body),
             assignedUser = or_default (b_assignedUser body) [],
             assignedUserName =
               fst (resolveUserName (or_default (b_assignedUser body) []) (b_assignedUserName body) s)\<rparr>"
  obtain r2 s2 where save: "Task_save_new ?t ?s1 = (r2, s2)" by (cases "Task_save_new ?t ?s1")
  have s1: "tasks ?s1 = tasks s" by (rule resolveUserName_keeps)
  from Task_save_new_cases[OF save] show ?thesis
  proof
    assume ok: "r2 = Inr ?t \<and> tasks s2 = tasks ?s1 @ [?t] \<and>
                \<not> list_ex (\<lambda>d. t_id d = t_id ?t) (tasks ?s1)"
    have "r = Json 201 ''Task created successfully'' (TaskDoc ?t) \<and> tasks s' = tasks s2"
      using assms False save ok
      by (auto simp: post_tasks_def case_prod_unfold sendSuccess_def addPending_keeps_tasks
          split: sum.splits if_splits)
    then show ?thesis using ok s1 by simp
  next
    assume bad: "(\<exists>e. r2 = Inl e) \<and> tasks s2 = tasks ?s1"
    then have "(\<exists>e. r = Json 500 ''Error creating task'' (ErrMessage e)) \<and> s' = s2"
      using assms False save
      by (auto simp: post_tasks_def case_prod_unfold sendError_def)
    then show ?thesis using bad s1 by auto
  qed
qed

section \<open>Creating an assigned task (C7)\<close>

subsection \<open>The calls of a request, by their place in the plan\<close>

lemma attempt_fst: "fst (attempt s) = rejects s 0"
  by (simp add: attempt_def rejects_def split: list.splits)

lemma rejects_attempt: "rejects (snd (attempt s)) k = rejects s (Suc k)"
  by (auto simp: attempt_def rejects_def split: list.splits)

lemma rejects_tasks_update: "rejects (s\<lparr>tasks := ts\<rparr>) k = rejects s k"
  by (simp add: rejects_def)

lemma rejects_users_update: "rejects (s\<lparr>users := us\<rparr>) k = rejects s k"
  by (simp add: rejects_def)

lemma User_findById_plan:
  "User_findById i s =
     (if rejects s 0 then Inl StoreFailure else Inr (find (\<lambda>d. u_id d = i) (users s)),
      snd (attempt s))"
  using attempt_fst[of s] attempt_keeps(2)[of s]
  by (simp add: User_findById_def case_prod_unfold)

lemma Task_save_new_plan:
  "\<not> list_ex (\<lambda>d. t_id d = t_id t) (tasks s) \<Longrightarrow>
   Task_save_new t s =
     (if rejects s 0 then (Inl StoreFailure, snd (attempt s))
      else (Inr t, (snd (attempt s))\<lparr>tasks := tasks s @ [t]\<rparr>))"
  using attempt_fst[of s] attempt_keeps(1)[of s]
  by (simp add: Task_save_new_def case_prod_unfold)

lemma User_save_pending_plan:
  "find (\<lambda>d. u_id d = i) (users s) = Some u \<Longrightarrow>
   User_save (u\<lparr>pendingTasks := ps\<rparr>) s =
     (if rejects s 0 then (Inl StoreFailure, snd (attempt s))
      else (Inr (u\<lparr>pendingTasks := ps\<rparr>),
            (snd (attempt s))\<lparr>users :=
               map (\<lambda>d. if u_id d = u_id u then u\<lparr>pendingTasks := ps\<rparr> else d) (users s)\<rparr>))"
  using attempt_fst[of s] attempt_keeps(2)[of s] find_id[of u_id i "users s" u]
  by (simp add: User_save_def case_prod_unfold)

lemma resolveUserName_plan:
  assumes "U \<noteq> []"
    and "n = (if given nm \<and> nm \<noteq> Some ''unassigned'' then 0 else 1)"
  shows "rejects (snd (resolveUserName U nm s)) k = rejects s (n + k)"
  using assms
  by (simp add: resolveUserName_def fetchUserName_def User_findById_plan rejects_attempt
      split: option.splits)

lemma addPending_plan:
  assumes u: "find (\<lambda>d. u_id d = U) (users s) = Some u"
  shows "users (snd (addPending U k s)) =
           (if rejects s 0 \<or> k \<in> set (pendingTasks u) \<or> rejects s 1 then users s
            else map (\<lambda>d. if u_id d = U then u\<lparr>pendingTasks := pendingTasks u @ [k]\<rparr> else d)
                   (users s))"
proof -
  have id: "u_id u = U" using u by (rule find_id)
  have u1: "find (\<lambda>d. u_id d = U) (users (snd (attempt s))) = Some u"
    using u by (simp add: attempt_keeps)
  show ?thesis
    using u id
    by (simp add: addPending_def User_findById_plan User_save_pending_plan[OF u1]
        rejects_attempt attempt_keeps)
qed

subsection \<open>The task first, then the user\<close>

text \<open>
  The claim has the id in \<open>U\<close>'s list once the task is saved. Ann is looked up, the task
  \<open>t3\<close> is saved, Ann is looked up again, and the write of Ann is rejected: the response is
  201, the task is stored, and Ann's \<open>pendingTasks\<close> does not hold \<open>t3\<close>.
\<close>

theorem C7_repair_rejected_counterexample:
  "fst (post_tasks (slides_body None ''u1'') ''t3''
          \<lparr>users = [ann], tasks = [], faults = [False, False, False, True]\<rparr>) =
     Json 201 ''Task created successfully''
       (TaskDoc \<lparr>t_id = ''t3'', t_name = ''Slides'', description = [], deadline = ''2026-02-01'',
                 completed = False, assignedUser = ''u1'', assignedUserName = ''Ann''\<rparr>) \<and>
   tasks (snd (post_tasks (slides_body None ''u1'') ''t3''
          \<lparr>users = [ann], tasks = [], faults = [False, False, False, True]\<rparr>)) =
     [\<lparr>t_id = ''t3'', t_name = ''Slides'', description = [], deadline = ''2026-02-01'',
                 completed = False, assignedUser = ''u1'', assignedUserName = ''Ann''\<rparr>] \<and>
   users (snd (post_tasks (slides_body None ''u1'') ''t3''
          \<lparr>users = [ann], tasks = [], faults = [False, False, False, True]\<rparr>)) = [ann] \<and>
   ''t3'' \<notin> set (pendingTasks ann)"
  by (simp add: sample_defs store_defs handler_defs Let_def)

text \<open>
  C7, amended. \<^verbatim>\<open>POST /api/tasks\<close> with a name and a deadline, a non-empty \<open>assignedUser\<close> \<open>U\<close> that
  names a user, \<open>completed\<close> false and an id that is new. The calls to the store are, in
  order, the lookup of the name of \<open>U\<close> where the body gives none (\<open>n\<close> calls, 1 or 0), the save
  of the task, the lookup of \<open>U\<close> and, when the id is not in the list, the write of \<open>U\<close>. When
  the save is rejected the response is 500 and no user and no task changes. When it is
  not, the response is 201 with the saved task, which is assigned to \<open>U\<close> and not completed,
  and, unless the lookup or the write of \<open>U\<close> is rejected, the new id is appended to \<open>U\<close>'s
  \<open>pendingTasks\<close> unless it is there already, so that the list, when it did not hold the
  id, then holds it exactly once; when the lookup or the write is rejected, no user
  changes.
\<close>

theorem C7_post_tasks_adds_pending_after_save:
  assumes valid: "given (b_name body)" "given (b_deadline body)"
    and assigned: "b_assignedUser body = Some U" "U \<noteq> []"
    and open_task: "\<not> completed_of (b_completed body)"
    and fresh: "\<not> list_ex (\<lambda>d. t_id d = oid) (tasks s)"
    and user: "find (\<lambda>d. u_id d = U) (users s) = Some u"
    and n: "n = (if given (b_assignedUserName body) \<and> b_assignedUserName body \<noteq> Some ''unassigned''
                 then 0 else 1)"
  shows "(rejects s n \<longrightarrow>
            (\<exists>e. fst (post_tasks body oid s) = Json 500 ''Error creating task'' (ErrMessage e)) \<and>
            users (snd (post_tasks body oid s)) = users s \<and>
            tasks (snd (post_tasks body oid s)) = tasks s) \<and>
         (\<not> rejects s n \<longrightarrow>
            (\<exists>t. fst (post_tasks body oid s) = Json 201 ''Task created successfully'' (TaskDoc t) \<and>
                 t_id t = oid \<and> assignedUser t = U \<and> \<not> completed t \<and>
                 find (\<lambda>d. t_id d = oid) (tasks (snd (post_tasks body oid s))) = Some t) \<and>
            (if rejects s (n + 1) \<or> (oid \<notin> set (pendingTasks u) \<and> rejects s (n + 2))
             then users (snd (post_tasks body oid s)) = users s
             else \<exists>u'. find (\<lambda>d. u_id d = U) (users (snd (post_tasks body oid s))) = Some u' \<and>
                    pendingTasks u' =
                      (if oid \<in> set (pendingTasks u) then pendingTasks u
                       else pendingTasks u @ [oid]) \<and>
                    (oid \<notin> set (pendingTasks u) \<longrightarrow> count_list (pendingTasks u') oid = 1)))"
proof -
  define nm where "nm = fst (resolveUserName U (b_assignedUserName body) s)"
  define s1 where "s1 = snd (resolveUserName U (b_assignedUserName body) s)"
  define t where "t =
    \<lparr>t_id = oid, t_name = or_default (b_name body) [],
     description = or_default (b_description body) [],
     deadline = or_default (b_deadline body) [], completed = False,
     assignedUser = U, assignedUserName = nm\<rparr>"
  have s1: "users s1 = users s" "tasks s1 = tasks s"
    by (simp_all add: s1_def resolveUserName_keeps)
  have plan: "rejects s1 k = rejects s (n + k)" for k
    unfolding s1_def using assigned(2) n by (rule resolveUserName_plan)
  have fresh1: "\<not> list_ex (\<lambda>d. t_id d = t_id t) (tasks s1)"
    using fresh by (simp add: s1 t_def)
  note save = Task_save_new_plan[OF fresh1]
  show ?thesis
  proof (cases "rejects s n")
    case True
    then have "rejects s1 0" using plan[of 0] by simp
    then have sv: "Task_save_new t s1 = (Inl StoreFailure, snd (attempt s1))"
      by (simp add: save)
    have "post_tasks body oid s =
                 (Json 500 ''Error creating task'' (ErrMessage StoreFailure), snd (attempt s1))"
      using valid assigned open_task sv[unfolded t_def nm_def s1_def]
      by (simp add: post_tasks_def sendError_def s1_def case_prod_unfold)
    then show ?thesis using True by (simp add: attempt_keeps s1)
  next
    case False
    then have ok: "\<not> rejects s1 0" using plan[of 0] by simp
    define s2 where "s2 = (snd (attempt s1))\<lparr>tasks := tasks s1 @ [t]\<rparr>"
    have s2: "users s2 = users s" "tasks s2 = tasks s @ [t]"
      by (simp_all add: s2_def attempt_keeps s1)
    have plan2: "rejects s2 k = rejects s (n + Suc k)" for k
      by (simp add: s2_def rejects_tasks_update rejects_attempt plan)
    have u2: "find (\<lambda>d. u_id d = U) (users s2) = Some u" using user by (simp add: s2)
    have sv: "Task_save_new t s1 = (Inr t, s2)"
      using ok by (simp add: save s2_def)
    have run2: "post_tasks body oid s =
                  (Json 201 ''Task created successfully'' (TaskDoc t), snd (addPending U oid s2))"
      using valid assigned open_task sv[unfolded t_def nm_def s1_def]
      by (simp add: post_tasks_def sendSuccess_def t_def nm_def case_prod_unfold
          split: sum.splits)
    have tasks': "tasks (snd (post_tasks body oid s)) = tasks s @ [t]"
      by (simp add: run2 addPending_keeps_tasks s2)
    have users': "users (snd (post_tasks body oid s)) =
           (if rejects s (n + 1) \<or> oid \<in> set (pendingTasks u) \<or> rejects s (n + 2) then users s
            else map (\<lambda>d. if u_id d = U then u\<lparr>pendingTasks := pendingTasks u @ [oid]\<rparr> else d)
                   (users s))"
      by (simp add: run2 addPending_plan[OF u2] plan2 s2)
    have id: "u_id u = U" using user by (rule find_id)
    have first: "\<exists>t. fst (post_tasks body oid s) = Json 201 ''Task created successfully'' (TaskDoc t) \<and>
                 t_id t = oid \<and> assignedUser t = U \<and> \<not> completed t \<and>
                 find (\<lambda>d. t_id d = oid) (tasks (snd (post_tasks body oid s))) = Some t"
    proof (intro exI[of _ t] conjI)
      show "fst (post_tasks body oid s) = Json 201 ''Task created successfully'' (TaskDoc t)"
        by (simp add: run2)
      show "t_id t = oid" "assignedUser t = U" "\<not> completed t" by (simp_all add: t_def)
      show "find (\<lambda>d. t_id d = oid) (tasks (snd (post_tasks body oid s))) = Some t"
        using fresh by (simp add: tasks' find_append_new t_def)
    qed
    have second: "users (snd (post_tasks body oid s)) = users s"
      if "rejects s (n + 1) \<or> (oid \<notin> set (pendingTasks u) \<and> rejects s (n + 2))"
      using that by (auto simp: users')
    have third: "\<exists>u'. find (\<lambda>d. u_id d = U) (users (snd (post_tasks body oid s))) = Some u' \<and>
                    pendingTasks u' =
                      (if oid \<in> set (pendingTasks u) then pendingTasks u
                       else pendingTasks u @ [oid]) \<and>
                    (oid \<notin> set (pendingTasks u) \<longrightarrow> count_list (pendingTasks u') oid = 1)"
      if "\<not> (rejects s (n + 1) \<or> (oid \<notin> set (pendingTasks u) \<and> rejects s (n + 2)))"
    proof (cases "oid \<in> set (pendingTasks u)")
      case True
      then show ?thesis using user by (simp add: users')
    next
      case False
      then have "find (\<lambda>d. u_id d = U) (users (snd (post_tasks body oid s))) =
                   Some (u\<lparr>pendingTasks := pendingTasks u @ [oid]\<rparr>)"
        using that user id
        by (simp add: users' find_replace[of u_id "u\<lparr>pendingTasks := pendingTasks u @ [oid]\<rparr>" U U])
      then show ?thesis using False by (simp add: count_list_0_iff)
    qed
    show ?thesis using False first second third by simp
  qed
qed

text \<open>
  Ann has no pending task; a task is created for her under the id \<open>t3\<close>: on a store that
  rejects nothing, on one that rejects the write of Ann, and on one that rejects the save
  of the task.
\<close>

theorem C7_post_tasks_adds_pending_after_save_witness:
  "fst (post_tasks (slides_body None ''u1'') ''t3''
          \<lparr>users = [ann], tasks = [], faults = []\<rparr>) =
     Json 201 ''Task created successfully''
       (TaskDoc \<lparr>t_id = ''t3'', t_name = ''Slides'', description = [], deadline = ''2026-02-01'',
                 completed = False, assignedUser = ''u1'', assignedUserName = ''Ann''\<rparr>) \<and>
   (\<exists>u'. find (\<lambda>d. u_id d = ''u1'')
           (users (snd (post_tasks (slides_body None ''u1'') ''t3''
          \<lparr>users = [ann], tasks = [], faults = []\<rparr>))) = Some u' \<and>
         pendingTasks u' = [''t3''] \<and> count_list (pendingTasks u') ''t3'' = 1) \<and>
   (\<exists>t. fst (post_tasks (slides_body None ''u1'') ''t3''
          \<lparr>users = [ann], tasks = [], faults = [False, False, False, True]\<rparr>) =
           Json 201 ''Task created successfully'' (TaskDoc t) \<and> t_id t = ''t3'') \<and>
   users (snd (post_tasks (slides_body None ''u1'') ''t3''
          \<lparr>users = [ann], tasks = [], faults = [False, False, False, True]\<rparr>)) = [ann] \<and>
   (\<exists>e. fst (post_tasks (slides_body None ''u1'') ''t3''
          \<lparr>users = [ann], tasks = [], faults = [False, True]\<rparr>) =
           Json 500 ''Error creating task'' (ErrMessage e)) \<and>
   users (snd (post_tasks (slides_body None ''u1'') ''t3''
          \<lparr>users = [ann], tasks = [], faults = [False, True]\<rparr>)) = [ann] \<and>
   tasks (snd (post_tasks (slides_body None ''u1'') ''t3''
          \<lparr>users = [ann], tasks = [], faults = [False, True]\<rparr>)) = []"
proof -
  have a1: "fst (post_tasks (slides_body None ''u1'') ''t3''
          \<lparr>users = [ann], tasks = [], faults = []\<rparr>) =
     Json 201 ''Task created successfully''
       (TaskDoc \<lparr>t_id = ''t3'', t_name = ''Slides'', description = [], deadline = ''2026-02-01'',
                 completed = False, assignedUser = ''u1'', assignedUserName = ''Ann''\<rparr>)"
    by (simp add: sample_defs store_defs handler_defs Let_def)
  have a2: "\<exists>u'. find (\<lambda>d. u_id d = ''u1'')
           (users (snd (post_tasks (slides_body None ''u1'') ''t3''
          \<lparr>users = [ann], tasks = [], faults = []\<rparr>))) = Some u' \<and>
         pendingTasks u' = [''t3''] \<and> count_list (pendingTasks u') ''t3'' = 1"
    using C7_post_tasks_adds_pending_after_save
      [where s = "\<lparr>users = [ann], tasks = [], faults = []\<rparr>" and body = "slides_body None ''u1''"
         and U = "''u1''" and oid = "''t3''" and u = ann and n = 1]
    by (simp add: sample_defs completed_of_def rejects_def)
  have b: "(\<exists>t. fst (post_tasks (slides_body None ''u1'') ''t3''
          \<lparr>users = [ann], tasks = [], faults = [False, False, False, True]\<rparr>) =
           Json 201 ''Task created successfully'' (TaskDoc t) \<and> t_id t = ''t3'') \<and>
   users (snd (post_tasks (slides_body None ''u1'') ''t3''
          \<lparr>users = [ann], tasks = [], faults = [False, False, False, True]\<rparr>)) = [ann]"
    using C7_post_tasks_adds_pending_after_save
      [where s = "\<lparr>users = [ann], tasks = [], faults = [False, False, False, True]\<rparr>" and body = "slides_body None ''u1''"
         and U = "''u1''" and oid = "''t3''" and u = ann and n = 1]
    by (auto simp: sample_defs completed_of_def rejects_def)
  have c: "(\<exists>e. fst (post_tasks (slides_body None ''u1'') ''t3''
          \<lparr>users = [ann], tasks = [], faults = [False, True]\<rparr>) =
           Json 500 ''Error creating task'' (ErrMessage e)) \<and>
   users (snd (post_tasks (slides_body None ''u1'') ''t3''
          \<lparr>users = [ann], tasks = [], faults = [False, True]\<rparr>)) = [ann] \<and>
   tasks (snd (post_tasks (slides_body None ''u1'') ''t3''
          \<lparr>users = [ann], tasks = [], faults = [False, True]\<rparr>)) = []"
    using C7_post_tasks_adds_pending_after_save
      [where s = "\<lparr>users = [ann], tasks = [], faults = [False, True]\<rparr>" and body = "slides_body None ''u1''"
         and U = "''u1''" and oid = "''t3''" and u = ann and n = 1]
    by (simp add: sample_defs completed_of_def rejects_def)
  from a1 a2 b c show ?thesis by blast
qed

section \<open>Updating a task (C4)\<close>

lemma put_tasks_sync_nofault:
  assumes nf: "faults s3 = []"
  shows "put_tasks_sync U1 oldC U2 newC t' s3 =
           (Json 200 ''Task updated successfully'' (TaskDoc t'),
            if U1 \<noteq> [] \<and> (U1 \<noteq> U2 \<or> (newC \<and> \<not> oldC)) then
              (if U2 \<noteq> [] \<and> \<not> newC
               then snd (addPending U2 (t_id t') (snd (removePending U1 (t_id t') s3)))
               else snd (removePending U1 (t_id t') s3))
            else if U2 \<noteq> [] \<and> \<not> newC \<and> U1 \<noteq> U2 then snd (addPending U2 (t_id t') s3)
            else s3)"
proof -
  let ?k = "t_id t'"
  have s4: "faults (snd (removePending U1 ?k s3)) = []"
    using nf by (rule removePending_nofault(2))
  show ?thesis
    unfolding put_tasks_sync_def Let_def
    by (simp add: sendSuccess_def case_prod_unfold removePending_nofault(1)[OF nf]
        addPending_nofault(1)[OF nf] addPending_nofault(1)[OF s4])
qed


lemma put_tasks_nofault:
  assumes nf: "faults s = []"
    and valid: "given (b_name body)" "given (b_deadline body)"
    and found: "find (\<lambda>d. t_id d = i) (tasks s) = Some t"
  shows "\<exists>t' s3. faults s3 = [] \<and> users s3 = users s \<and> t_id t' = i \<and>
           put_tasks i body s =
             put_tasks_sync (assignedUser t) (completed t) (or_default (b_assignedUser body) [])
               (completed_of (b_completed body)) t' s3"
proof -
  define nm where
    "nm = fst (resolveUserName (or_default (b_assignedUser body) []) (b_assignedUserName body) s)"
  define t' where "t' = t\<lparr>t_name := or_default (b_name body) [],
                          description := or_default (b_description body) [],
                          deadline := or_default (b_deadline body) [],
                          completed := completed_of (b_completed body),
                          assignedUser := or_default (b_assignedUser body) [],
                          assignedUserName := nm\<rparr>"
  define s3 where "s3 = s\<lparr>tasks := map (\<lambda>d. if t_id d = t_id t' then t' else d) (tasks s)\<rparr>"
  have id: "t_id t' = i" using find_id[OF found] by (simp add: t'_def)
  have s3: "faults s3 = []" "users s3 = users s" using nf by (simp_all add: s3_def)
  have save: "Task_save t' s = (Inr t', s3)"
    using nf by (simp add: Task_save_nofault s3_def)
  have "put_tasks i body s =
          put_tasks_sync (assignedUser t) (completed t) (or_default (b_assignedUser body) [])
            (completed_of (b_completed body)) t' s3"
    using valid found save[unfolded t'_def nm_def]
    by (simp add: put_tasks_def Task_findById_nofault[OF nf] case_prod_unfold
        resolveUserName_nofault[OF nf] t'_def nm_def)
  with s3 id show ?thesis by blast
qed

text \<open>
  C4. \<^verbatim>\<open>PUT /api/tasks/:id\<close> of an existing task, with a name and a deadline, on a store that
  rejects nothing, answers 200. If the old \<open>assignedUser\<close> is not empty and either the
  assignment changed or the task went from not completed to completed, the task id is
  removed from the old user's \<open>pendingTasks\<close>. If the new \<open>assignedUser\<close> is not empty, the new
  \<open>completed\<close> is false and the assignment changed (from another user or from unassigned),
  the task id is appended to the new user's \<open>pendingTasks\<close> unless it is there already.
  A user that does not exist is skipped.
\<close>

theorem C4_put_tasks_moves_pending:
  assumes nf: "faults s = []"
    and valid: "given (b_name body)" "given (b_deadline body)"
    and found: "find (\<lambda>d. t_id d = i) (tasks s) = Some t"
  shows "(\<exists>t'. fst (put_tasks i body s) = Json 200 ''Task updated successfully'' (TaskDoc t')) \<and>
         (assignedUser t \<noteq> [] \<and>
          (assignedUser t \<noteq> or_default (b_assignedUser body) [] \<or>
           (completed_of (b_completed body) \<and> \<not> completed t)) \<longrightarrow>
            (\<forall>u. find (\<lambda>d. u_id d = assignedUser t) (users s) = Some u \<longrightarrow>
                 find (\<lambda>d. u_id d = assignedUser t) (users (snd (put_tasks i body s))) =
                   Some (u\<lparr>pendingTasks := filter (\<lambda>x. x \<noteq> i) (pendingTasks u)\<rparr>))) \<and>
         (or_default (b_assignedUser body) [] \<noteq> [] \<and> \<not> completed_of (b_completed body) \<and>
          assignedUser t \<noteq> or_default (b_assignedUser body) [] \<longrightarrow>
            (\<forall>u. find (\<lambda>d. u_id d = or_default (b_assignedUser body) []) (users s) = Some u \<longrightarrow>
                 find (\<lambda>d. u_id d = or_default (b_assignedUser body) [])
                   (users (snd (put_tasks i body s))) =
                   Some (u\<lparr>pendingTasks :=
                           if i \<in> set (pendingTasks u) then pendingTasks u
                           else pendingTasks u @ [i]\<rparr>)))"
proof -
  define U1 where "U1 = assignedUser t"
  define U2 where "U2 = or_default (b_assignedUser body) []"
  define newC where "newC = completed_of (b_completed body)"
  from put_tasks_nofault[OF nf valid found] obtain t' s3 where
    s3: "faults s3 = []" "users s3 = users s" and id: "t_id t' = i"
    and run0: "put_tasks i body s = put_tasks_sync U1 (completed t) U2 newC t' s3"
    unfolding U1_def U2_def newC_def by blast
  have s4: "faults (snd (removePending U1 i s3)) = []"
    using s3(1) by (rule removePending_nofault(2))
  have run: "put_tasks i body s =
           (Json 200 ''Task updated successfully'' (TaskDoc t'),
            if U1 \<noteq> [] \<and> (U1 \<noteq> U2 \<or> (newC \<and> \<not> completed t)) then
              (if U2 \<noteq> [] \<and> \<not> newC
               then snd (addPending U2 i (snd (removePending U1 i s3)))
               else snd (removePending U1 i s3))
            else if U2 \<noteq> [] \<and> \<not> newC \<and> U1 \<noteq> U2 then snd (addPending U2 i s3)
            else s3)"
    unfolding run0 put_tasks_sync_nofault[OF s3(1)] id ..
  have resp: "\<exists>t'. fst (put_tasks i body s) = Json 200 ''Task updated successfully'' (TaskDoc t')"
    by (simp add: run)
  have removed: "find (\<lambda>d. u_id d = U1) (users (snd (put_tasks i body s))) =
                   Some (u\<lparr>pendingTasks := filter (\<lambda>x. x \<noteq> i) (pendingTasks u)\<rparr>)"
    if c: "U1 \<noteq> [] \<and> (U1 \<noteq> U2 \<or> (newC \<and> \<not> completed t))"
      and u: "find (\<lambda>d. u_id d = U1) (users s) = Some u" for u
  proof (cases "U2 \<noteq> [] \<and> \<not> newC")
    case True
    with c have "U1 \<noteq> U2" by blast
    then show ?thesis
      using c True u
      by (simp add: run addPending_nofault(4)[OF s4] removePending_nofault(4)[OF s3(1)] s3(2))
  next
    case False
    then show ?thesis
      using c u by (auto simp: run removePending_nofault(4)[OF s3(1)] s3(2))
  qed
  have added: "find (\<lambda>d. u_id d = U2) (users (snd (put_tasks i body s))) =
                 Some (u\<lparr>pendingTasks :=
                         if i \<in> set (pendingTasks u) then pendingTasks u else pendingTasks u @ [i]\<rparr>)"
    if c: "U2 \<noteq> [] \<and> \<not> newC \<and> U1 \<noteq> U2"
      and u: "find (\<lambda>d. u_id d = U2) (users s) = Some u" for u
  proof (cases "U1 \<noteq> []")
    case True
    from c have "U2 \<noteq> U1" by blast
    with True show ?thesis
      using c u
      by (simp add: run addPending_nofault(4)[OF s4] removePending_nofault(4)[OF s3(1)] s3(2))
  next
    case False
    then show ?thesis
      using c u by (auto simp: run addPending_nofault(4)[OF s3(1)] s3(2))
  qed
  show ?thesis
    using resp removed added unfolding U1_def U2_def newC_def by blast
qed

text \<open>
  The task \<open>t2\<close> moves from Ann to Bob; and \<open>t2\<close> is marked completed while assigned to Ann.
\<close>

theorem C4_put_tasks_moves_pending_witness:
  "find (\<lambda>d. u_id d = ''u1'')
     (users (snd (put_tasks ''t2'' (slides_body None ''u2'')
                    \<lparr>users = [ann_busy, bob], tasks = [open_task], faults = []\<rparr>))) =
     Some (ann_busy\<lparr>pendingTasks := [''t9'']\<rparr>) \<and>
   find (\<lambda>d. u_id d = ''u2'')
     (users (snd (put_tasks ''t2'' (slides_body None ''u2'')
                    \<lparr>users = [ann_busy, bob], tasks = [open_task], faults = []\<rparr>))) =
     Some (bob\<lparr>pendingTasks := [''t2'']\<rparr>) \<and>
   find (\<lambda>d. u_id d = ''u1'')
     (users (snd (put_tasks ''t2'' (slides_body (Some (JBool True)) ''u1'')
                    \<lparr>users = [ann_busy, bob], tasks = [open_task], faults = []\<rparr>))) =
     Some (ann_busy\<lparr>pendingTasks := [''t9'']\<rparr>)"
proof -
  note move = C4_put_tasks_moves_pending
      [where s = "\<lparr>users = [ann_busy, bob], tasks = [open_task], faults = []\<rparr>"
         and body = "slides_body None ''u2''" and i = "''t2''" and t = open_task]
  note finish = C4_put_tasks_moves_pending
      [where s = "\<lparr>users = [ann_busy, bob], tasks = [open_task], faults = []\<rparr>"
         and body = "slides_body (Some (JBool True)) ''u1''" and i = "''t2''" and t = open_task]
  have a: "find (\<lambda>d. u_id d = ''u1'')
     (users (snd (put_tasks ''t2'' (slides_body None ''u2'')
                    \<lparr>users = [ann_busy, bob], tasks = [open_task], faults = []\<rparr>))) =
     Some (ann_busy\<lparr>pendingTasks := [''t9'']\<rparr>)"
    using move by (simp add: sample_defs completed_of_def)
  have b: "find (\<lambda>d. u_id d = ''u2'')
     (users (snd (put_tasks ''t2'' (slides_body None ''u2'')
                    \<lparr>users = [ann_busy, bob], tasks = [open_task], faults = []\<rparr>))) =
     Some (bob\<lparr>pendingTasks := [''t2'']\<rparr>)"
    using move by (simp add: sample_defs completed_of_def)
  have c: "find (\<lambda>d. u_id d = ''u1'')
     (users (snd (put_tasks ''t2'' (slides_body (Some (JBool True)) ''u1'')
                    \<lparr>users = [ann_busy, bob], tasks = [open_task], faults = []\<rparr>))) =
     Some (ann_busy\<lparr>pendingTasks := [''t9'']\<rparr>)"
    using finish by (simp add: sample_defs completed_of_def)
  from a b c show ?thesis by blast
qed

section \<open>Deleting a user (C8)\<close>

subsection \<open>The repair of a list of tasks\<close>

lemma Task_findById_keeps:
  "tasks (snd (Task_findById i s)) = tasks s" "users (snd (Task_findById i s)) = users s"
  by (simp_all add: Task_findById_def case_prod_unfold Let_def attempt_keeps)

lemma Task_save_keeps_users: "users (snd (Task_save t s)) = users s"
  by (simp add: Task_save_def case_prod_unfold Let_def attempt_keeps)

lemma findEach_keeps:
  "tasks (snd (findEach ks s)) = tasks s" "users (snd (findEach ks s)) = users s"
  by (induction ks arbitrary: s; simp add: case_prod_unfold Task_findById_keeps)+

lemma findEach_found:
  "firstRejected (fst (findEach ks s)) = None \<Longrightarrow>
   fst (findEach ks s) = map (\<lambda>k. Inr (find (\<lambda>d. t_id d = k) (tasks s))) ks"
proof (induction ks arbitrary: s)
  case Nil
  then show ?case by simp
next
  case (Cons k ks)
  obtain r s1 where f: "Task_findById k s = (r, s1)" by (cases "Task_findById k s")
  have t: "tasks s1 = tasks s" using Task_findById_keeps(1)[of k s] f by simp
  from Cons.prems f obtain x where r: "r = Inr x" and rest: "firstRejected (fst (findEach ks s1)) = None"
    by (cases r) (auto simp: case_prod_unfold)
  have x: "x = find (\<lambda>d. t_id d = k) (tasks s)"
    using f r by (auto simp: Task_findById_def case_prod_unfold Let_def attempt_keeps split: if_splits)
  show ?case using Cons.IH[OF rest] f r x t by (simp add: case_prod_unfold)
qed

lemma findEach_nofault:
  "faults s = [] \<Longrightarrow>
   findEach ks s = (map (\<lambda>k. Inr (find (\<lambda>d. t_id d = k) (tasks s))) ks, s)"
  by (induction ks) (simp_all add: Task_findById_nofault)

lemma thenSave_keeps_users: "users (snd (thenSave f rs s)) = users s"
proof (induction rs arbitrary: s)
  case Nil
  then show ?case by simp
next
  case (Cons r rs)
  show ?case
  proof (cases r)
    case (Inl e)
    then show ?thesis using Cons.IH by simp
  next
    case (Inr x)
    then show ?thesis
      using Cons.IH by (cases x) (simp_all add: case_prod_unfold Task_save_keeps_users)
  qed
qed

lemma thenSave_saved:
  assumes "fst (thenSave f (map (\<lambda>k. Inr (find (\<lambda>d. t_id d = k) T0)) ks) s) = None"
    and "\<And>t. t_id (f t) = t_id t"
    and "\<And>j. (find (\<lambda>d. t_id d = j) (tasks s) = None) = (find (\<lambda>d. t_id d = j) T0 = None)"
  shows "find (\<lambda>d. t_id d = j) (tasks (snd (thenSave f (map (\<lambda>k. Inr (find (\<lambda>d. t_id d = k) T0)) ks) s))) =
           (if j \<in> set ks then map_option f (find (\<lambda>d. t_id d = j) T0)
            else find (\<lambda>d. t_id d = j) (tasks s))"
  using assms
proof (induction ks arbitrary: s)
  case Nil
  then show ?case by simp
next
  case (Cons k ks)
  show ?case
  proof (cases "find (\<lambda>d. t_id d = k) T0")
    case None
    then have "find (\<lambda>d. t_id d = k) (tasks s) = None" using Cons.prems(3) by simp
    then show ?thesis using Cons.IH[of s] Cons.prems None by auto
  next
    case (Some t)
    have k: "t_id t = k" using Some by (rule find_id)
    obtain r s1 where sv: "Task_save (f t) s = (r, s1)" by (cases "Task_save (f t) s")
    from Cons.prems(1) Some sv have ok: "r = Inr (f t)"
      and rest: "fst (thenSave f (map (\<lambda>k. Inr (find (\<lambda>d. t_id d = k) T0)) ks) s1) = None"
      using Task_save_cases[OF sv] by (auto simp: case_prod_unfold split: sum.splits)
    have t1: "tasks s1 = map (\<lambda>d. if t_id d = k then f t else d) (tasks s)"
      using Task_save_cases[OF sv] ok k Cons.prems(2) by auto
    have fnd: "find (\<lambda>d. t_id d = j) (tasks s1) =
                 (if j = k then map_option (\<lambda>x. f t) (find (\<lambda>d. t_id d = k) (tasks s))
                  else find (\<lambda>d. t_id d = j) (tasks s))" for j
      unfolding t1 using find_replace[of t_id "f t" k j "tasks s"] k Cons.prems(2) by simp
    have inv: "(find (\<lambda>d. t_id d = j) (tasks s1) = None) = (find (\<lambda>d. t_id d = j) T0 = None)" for j
      using fnd[of j] Cons.prems(3)[of j] by auto
    have there: "find (\<lambda>d. t_id d = k) (tasks s) \<noteq> None" using Cons.prems(3)[of k] Some by simp
    note ih = Cons.IH[OF rest Cons.prems(2) inv]
    show ?thesis
      using ih fnd[of j] Some sv there by (auto simp: case_prod_unfold)
  qed
qed

lemma thenSave_nofault:
  "faults s = [] \<Longrightarrow> fst (thenSave f rs s) = None \<and> faults (snd (thenSave f rs s)) = []"
proof (induction rs arbitrary: s)
  case Nil
  then show ?case by simp
next
  case (Cons r rs)
  show ?case
  proof (cases r)
    case (Inl e)
    then show ?thesis using Cons by simp
  next
    case (Inr x)
    then show ?thesis
      using Cons by (cases x) (simp_all add: case_prod_unfold Task_save_nofault)
  qed
qed

lemma first_rejection_None: "first_rejection rs = None \<longleftrightarrow> (\<forall>r\<in>set rs. r = None)"
  by (induction rs rule: first_rejection.induct) simp_all

lemma Promise_all_cases:
  assumes run: "Promise_all f ks s = (pe, s2)" and ident: "\<And>t. t_id (f t) = t_id t"
  shows "users s2 = users s"
    and "pe = None \<Longrightarrow>
         find (\<lambda>d. t_id d = j) (tasks s2) =
           (if j \<in> set ks then map_option f (find (\<lambda>d. t_id d = j) (tasks s))
            else find (\<lambda>d. t_id d = j) (tasks s))"
proof -
  let ?found = "fst (findEach ks s)"
  let ?s1 = "snd (findEach ks s)"
  have pe: "pe = first_rejection [firstRejected ?found, fst (thenSave f ?found ?s1)]"
    and s2: "s2 = snd (thenSave f ?found ?s1)"
    using run by (simp_all add: Promise_all_def case_prod_unfold)
  show "users s2 = users s" by (simp add: s2 thenSave_keeps_users findEach_keeps)
  assume "pe = None"
  then have both: "first_rejection [firstRejected ?found, fst (thenSave f ?found ?s1)] = None"
    using pe by simp
  have none: "firstRejected ?found = None" and saved: "fst (thenSave f ?found ?s1) = None"
    using both by (simp_all add: first_rejection_None)
  have found: "?found = map (\<lambda>k. Inr (find (\<lambda>d. t_id d = k) (tasks s))) ks"
    using none by (rule findEach_found)
  have saved': "fst (thenSave f (map (\<lambda>k. Inr (find (\<lambda>d. t_id d = k) (tasks s))) ks) ?s1) = None"
    using saved found by simp
  have same: "(find (\<lambda>d. t_id d = j) (tasks ?s1) = None) = (find (\<lambda>d. t_id d = j) (tasks s) = None)" for j
    by (simp add: findEach_keeps)
  have "find (\<lambda>d. t_id d = j)
          (tasks (snd (thenSave f (map (\<lambda>k. Inr (find (\<lambda>d. t_id d = k) (tasks s))) ks) ?s1))) =
        (if j \<in> set ks then map_option f (find (\<lambda>d. t_id d = j) (tasks s))
         else find (\<lambda>d. t_id d = j) (tasks ?s1))"
    using saved' ident same by (rule thenSave_saved)
  then show "find (\<lambda>d. t_id d = j) (tasks s2) =
           (if j \<in> set ks then map_option f (find (\<lambda>d. t_id d = j) (tasks s))
            else find (\<lambda>d. t_id d = j) (tasks s))"
    using found by (simp add: s2 findEach_keeps)
qed

lemma firstRejected_found: "firstRejected (map (\<lambda>k. Inr (g k)) ks) = None"
  by (induction ks) simp_all

lemma Promise_all_nofault:
  "faults s = [] \<Longrightarrow> fst (Promise_all f ks s) = None \<and> faults (snd (Promise_all f ks s)) = []"
  by (simp add: Promise_all_def findEach_nofault case_prod_unfold thenSave_nofault
      firstRejected_found)

lemma User_findById_cases:
  assumes "User_findById i s = (r, s1)"
  shows "users s1 = users s \<and> tasks s1 = tasks s \<and>
         (r = Inr (find (\<lambda>d. u_id d = i) (users s)) \<or> r = Inl StoreFailure)"
  using assms
  by (auto simp: User_findById_def attempt_def Let_def split: list.splits if_splits)

lemma User_findByIdAndDelete_cases:
  assumes "User_findByIdAndDelete i s = (r, s1)"
  shows "tasks s1 = tasks s \<and>
         ((r = Inr () \<and> users s1 = filter (\<lambda>d. u_id d \<noteq> i) (users s)) \<or>
          (r = Inl StoreFailure \<and> users s1 = users s))"
  using assms
  by (auto simp: User_findByIdAndDelete_def attempt_def Let_def split: list.splits if_splits)

text \<open>What a DELETE of an existing user leaves, by its response.\<close>

lemma delete_users_cases:
  assumes u: "find (\<lambda>d. u_id d = i) (users s) = Some u"
  shows "(fst (delete_users i s) = NoContent 204 \<and>
          find (\<lambda>d. u_id d = i) (users (snd (delete_users i s))) = None \<and>
          (\<forall>k. find (\<lambda>d. t_id d = k) (tasks (snd (delete_users i s))) =
                 map_option (\<lambda>t. if k \<in> set (pendingTasks u)
                                  then t\<lparr>assignedUser := [], assignedUserName := ''unassigned''\<rparr>
                                  else t)
                   (find (\<lambda>d. t_id d = k) (tasks s)))) \<or>
         ((\<exists>e. fst (delete_users i s) = Json 500 ''Error deleting user'' (ErrMessage e)) \<and>
          users (snd (delete_users i s)) = users s)"
proof -
  have id: "u_id u = i" using u by (rule find_id)
  obtain r1 s1 where f: "User_findById i s = (r1, s1)" by (cases "User_findById i s")
  note f1 = User_findById_cases[OF f]
  show ?thesis
  proof (cases r1)
    case (Inl e)
    then show ?thesis using f f1 by (simp add: delete_users_def sendError_def)
  next
    case (Inr x)
    then have r1: "r1 = Inr (Some u)" using f1 u by auto
    obtain pe s2 where p: "Promise_all unassigned (pendingTasks u) s1 = (pe, s2)"
      by (cases "Promise_all unassigned (pendingTasks u) s1")
    have ident: "t_id (unassigned t) = t_id t" for t by (simp add: unassigned_def)
    have us2: "users s2 = users s" using Promise_all_cases(1)[OF p ident] f1 by simp
    show ?thesis
    proof (cases pe)
      case (Some err)
      then show ?thesis using f r1 p us2 by (simp add: delete_users_def sendError_def)
    next
      case None
      have ts2: "find (\<lambda>d. t_id d = k) (tasks s2) =
                   map_option (\<lambda>t. if k \<in> set (pendingTasks u)
                                    then t\<lparr>assignedUser := [], assignedUserName := ''unassigned''\<rparr>
                                    else t)
                     (find (\<lambda>d. t_id d = k) (tasks s))" for k
        using Promise_all_cases(2)[OF p ident None, of k] f1
        by (cases "find (\<lambda>d. t_id d = k) (tasks s)") (simp_all add: unassigned_def)
      obtain r3 s3 where d: "User_findByIdAndDelete i s2 = (r3, s3)"
        by (cases "User_findByIdAndDelete i s2")
      note d3 = User_findByIdAndDelete_cases[OF d]
      have run: "delete_users i s =
                   (case r3 of Inl err \<Rightarrow> sendError 500 ''Error deleting user'' (Some err)
                    | Inr x \<Rightarrow> NoContent 204, s3)"
        using f r1 p None d id by (simp add: delete_users_def split: sum.splits)
      from d3 show ?thesis
      proof (elim conjE disjE)
        assume "r3 = Inr ()" "users s3 = filter (\<lambda>d. u_id d \<noteq> i) (users s2)" "tasks s3 = tasks s2"
        then show ?thesis using run ts2 by (simp add: find_filter_out)
      next
        assume "r3 = Inl StoreFailure" "users s3 = users s2" "tasks s3 = tasks s2"
        then show ?thesis using run us2 by (simp add: sendError_def)
      qed
    qed
  qed
qed

lemma delete_users_nofault:
  assumes "faults s = []" and u: "find (\<lambda>d. u_id d = i) (users s) = Some u"
  shows "fst (delete_users i s) = NoContent 204"
proof -
  have id: "u_id u = i" using u by (rule find_id)
  note p = Promise_all_nofault[OF assms(1), of unassigned "pendingTasks u"]
  show ?thesis
    using u p id
    by (simp add: delete_users_def User_findById_nofault[OF assms(1)] case_prod_unfold
        User_findByIdAndDelete_def attempt_nofault)
qed

lemma delete_users_absent:
  assumes "find (\<lambda>d. u_id d = i) (users s) = None"
  shows "fst (delete_users i s) \<noteq> NoContent 204 \<and>
         users (snd (delete_users i s)) = users s \<and> tasks (snd (delete_users i s)) = tasks s"
proof -
  obtain r1 s1 where f: "User_findById i s = (r1, s1)" by (cases "User_findById i s")
  from User_findById_cases[OF f] assms show ?thesis
    using f by (auto simp: delete_users_def sendError_def)
qed

subsection \<open>The tasks first, then the user\<close>

text \<open>
  C8. \<^verbatim>\<open>DELETE /api/users/:id\<close>. On a store that rejects nothing, for an existing user the
  response is 204 with no body, the user is gone, and every task whose id is in the
  user's \<open>pendingTasks\<close> has \<open>assignedUser\<close> empty and \<open>assignedUserName\<close> \<^verbatim>\<open>"unassigned"\<close>; every other
  task is as it was, and an id that names no task is skipped. The tasks come first: under
  any plan of rejected store calls, once the user is gone, or the response is 204, the
  response is 204, the user is gone and every listed task has been unassigned, so that a
  call rejected before the last write leaves the user in place. For an id that names no
  user the response is 404 and the store is unchanged when nothing is rejected, and under
  any plan the response is not 204 and no document changes.
\<close>

theorem C8_delete_users_unassigns_first:
  "(faults s = [] \<and> find (\<lambda>d. u_id d = i) (users s) = Some u \<longrightarrow>
      fst (delete_users i s) = NoContent 204 \<and>
      find (\<lambda>d. u_id d = i) (users (snd (delete_users i s))) = None \<and>
      (\<forall>k. find (\<lambda>d. t_id d = k) (tasks (snd (delete_users i s))) =
             map_option (\<lambda>t. if k \<in> set (pendingTasks u)
                              then t\<lparr>assignedUser := [], assignedUserName := ''unassigned''\<rparr>
                              else t)
               (find (\<lambda>d. t_id d = k) (tasks s)))) \<and>
   (find (\<lambda>d. u_id d = i) (users s) = Some u \<and>
    (find (\<lambda>d. u_id d = i) (users (snd (delete_users i s))) = None \<or>
     fst (delete_users i s) = NoContent 204) \<longrightarrow>
      fst (delete_users i s) = NoContent 204 \<and>
      find (\<lambda>d. u_id d = i) (users (snd (delete_users i s))) = None \<and>
      (\<forall>k. find (\<lambda>d. t_id d = k) (tasks (snd (delete_users i s))) =
             map_option (\<lambda>t. if k \<in> set (pendingTasks u)
                              then t\<lparr>assignedUser := [], assignedUserName := ''unassigned''\<rparr>
                              else t)
               (find (\<lambda>d. t_id d = k) (tasks s)))) \<and>
   (faults s = [] \<and> find (\<lambda>d. u_id d = i) (users s) = None \<longrightarrow>
      delete_users i s = (Json 404 ''User not found'' Null, s)) \<and>
   (find (\<lambda>d. u_id d = i) (users s) = None \<longrightarrow>
      fst (delete_users i s) \<noteq> NoContent 204 \<and>
      users (snd (delete_users i s)) = users s \<and> tasks (snd (delete_users i s)) = tasks s)"
proof -
  let ?done = "fst (delete_users i s) = NoContent 204 \<and>
      find (\<lambda>d. u_id d = i) (users (snd (delete_users i s))) = None \<and>
      (\<forall>k. find (\<lambda>d. t_id d = k) (tasks (snd (delete_users i s))) =
             map_option (\<lambda>t. if k \<in> set (pendingTasks u)
                              then t\<lparr>assignedUser := [], assignedUserName := ''unassigned''\<rparr>
                              else t)
               (find (\<lambda>d. t_id d = k) (tasks s)))"
  have any: ?done
    if u: "find (\<lambda>d. u_id d = i) (users s) = Some u"
      and gone: "find (\<lambda>d. u_id d = i) (users (snd (delete_users i s))) = None \<or>
                 fst (delete_users i s) = NoContent 204"
  proof -
    from delete_users_cases[OF u] show ?thesis
    proof
      assume ?done
      then show ?thesis .
    next
      assume b: "(\<exists>e. fst (delete_users i s) = Json 500 ''Error deleting user'' (ErrMessage e)) \<and>
                 users (snd (delete_users i s)) = users s"
      then have "find (\<lambda>d. u_id d = i) (users (snd (delete_users i s))) = Some u"
        using u by simp
      moreover have "fst (delete_users i s) \<noteq> NoContent 204" using b by auto
      ultimately show ?thesis using gone by simp
    qed
  qed
  have c1: "faults s = [] \<and> find (\<lambda>d. u_id d = i) (users s) = Some u \<longrightarrow> ?done"
  proof (rule impI)
    assume a: "faults s = [] \<and> find (\<lambda>d. u_id d = i) (users s) = Some u"
    then have "fst (delete_users i s) = NoContent 204" by (simp add: delete_users_nofault)
    then show ?done using a by (intro any) simp_all
  qed
  have c2: "find (\<lambda>d. u_id d = i) (users s) = Some u \<and>
            (find (\<lambda>d. u_id d = i) (users (snd (delete_users i s))) = None \<or>
             fst (delete_users i s) = NoContent 204) \<longrightarrow> ?done"
  proof (rule impI)
    assume a: "find (\<lambda>d. u_id d = i) (users s) = Some u \<and>
            (find (\<lambda>d. u_id d = i) (users (snd (delete_users i s))) = None \<or>
             fst (delete_users i s) = NoContent 204)"
    show ?done by (rule any) (use a in blast)+
  qed
  have c3: "faults s = [] \<and> find (\<lambda>d. u_id d = i) (users s) = None \<longrightarrow>
            delete_users i s = (Json 404 ''User not found'' Null, s)"
    by (simp add: delete_users_def User_findById_nofault sendError_def)
  have c4: "find (\<lambda>d. u_id d = i) (users s) = None \<longrightarrow>
            fst (delete_users i s) \<noteq> NoContent 204 \<and>
            users (snd (delete_users i s)) = users s \<and> tasks (snd (delete_users i s)) = tasks s"
    by (rule impI) (rule delete_users_absent)
  from c1 c2 c3 c4 show ?thesis by (intro conjI)
qed

text \<open>
  Ann, with \<open>t2\<close> and the dangling id \<open>t9\<close> pending, is deleted, on a store that rejects
  nothing and on one with a plan that rejects nothing; \<open>u3\<close> names no user, with nothing
  rejected and with the lookup rejected.
\<close>

theorem C8_delete_users_unassigns_first_witness:
  "fst (delete_users ''u1'' \<lparr>users = [ann_busy, bob], tasks = [open_task, done_task], faults = []\<rparr>) =
     NoContent 204 \<and>
   find (\<lambda>d. u_id d = ''u1'')
     (users (snd (delete_users ''u1''
                    \<lparr>users = [ann_busy, bob], tasks = [open_task, done_task], faults = []\<rparr>))) = None \<and>
   find (\<lambda>d. t_id d = ''t2'')
     (tasks (snd (delete_users ''u1''
                    \<lparr>users = [ann_busy, bob], tasks = [open_task, done_task], faults = []\<rparr>))) =
     Some (open_task\<lparr>assignedUser := [], assignedUserName := ''unassigned''\<rparr>) \<and>
   find (\<lambda>d. u_id d = ''u1'')
     (users (snd (delete_users ''u1''
                    \<lparr>users = [ann_busy, bob], tasks = [open_task, done_task], faults = [False, False]\<rparr>))) = None \<and>
   find (\<lambda>d. t_id d = ''t2'')
     (tasks (snd (delete_users ''u1''
                    \<lparr>users = [ann_busy, bob], tasks = [open_task, done_task], faults = [False, False]\<rparr>))) =
     Some (open_task\<lparr>assignedUser := [], assignedUserName := ''unassigned''\<rparr>) \<and>
   delete_users ''u3'' \<lparr>users = [ann_busy, bob], tasks = [open_task, done_task], faults = []\<rparr> =
     (Json 404 ''User not found'' Null,
      \<lparr>users = [ann_busy, bob], tasks = [open_task, done_task], faults = []\<rparr>) \<and>
   fst (delete_users ''u3'' \<lparr>users = [ann_busy, bob], tasks = [open_task, done_task], faults = [True]\<rparr>) \<noteq>
     NoContent 204"
proof -
  note there = C8_delete_users_unassigns_first
      [where s = "\<lparr>users = [ann_busy, bob], tasks = [open_task, done_task], faults = []\<rparr>"
         and i = "''u1''" and u = ann_busy]
  note planned = C8_delete_users_unassigns_first
      [where s = "\<lparr>users = [ann_busy, bob], tasks = [open_task, done_task], faults = [False, False]\<rparr>"
         and i = "''u1''" and u = ann_busy]
  note missing = C8_delete_users_unassigns_first
      [where s = "\<lparr>users = [ann_busy, bob], tasks = [open_task, done_task], faults = []\<rparr>"
         and i = "''u3''"]
  note rejected = C8_delete_users_unassigns_first
      [where s = "\<lparr>users = [ann_busy, bob], tasks = [open_task, done_task], faults = [True]\<rparr>"
         and i = "''u3''"]
  have a: "fst (delete_users ''u1'' \<lparr>users = [ann_busy, bob], tasks = [open_task, done_task], faults = []\<rparr>) =
     NoContent 204 \<and>
   find (\<lambda>d. u_id d = ''u1'')
     (users (snd (delete_users ''u1''
                    \<lparr>users = [ann_busy, bob], tasks = [open_task, done_task], faults = []\<rparr>))) = None \<and>
   find (\<lambda>d. t_id d = ''t2'')
     (tasks (snd (delete_users ''u1''
                    \<lparr>users = [ann_busy, bob], tasks = [open_task, done_task], faults = []\<rparr>))) =
     Some (open_task\<lparr>assignedUser := [], assignedUserName := ''unassigned''\<rparr>)"
    using there by (simp add: sample_defs)
  have gone: "find (\<lambda>d. u_id d = ''u1'')
     (users (snd (delete_users ''u1''
                    \<lparr>users = [ann_busy, bob], tasks = [open_task, done_task], faults = [False, False]\<rparr>))) = None"
    by (simp add: sample_defs store_defs handler_defs Let_def)
  have b: "find (\<lambda>d. u_id d = ''u1'')
     (users (snd (delete_users ''u1''
                    \<lparr>users = [ann_busy, bob], tasks = [open_task, done_task], faults = [False, False]\<rparr>))) = None \<and>
   find (\<lambda>d. t_id d = ''t2'')
     (tasks (snd (delete_users ''u1''
                    \<lparr>users = [ann_busy, bob], tasks = [open_task, done_task], faults = [False, False]\<rparr>))) =
     Some (open_task\<lparr>assignedUser := [], assignedUserName := ''unassigned''\<rparr>)"
    using planned gone by (simp add: sample_defs)
  have c: "delete_users ''u3'' \<lparr>users = [ann_busy, bob], tasks = [open_task, done_task], faults = []\<rparr> =
     (Json 404 ''User not found'' Null,
      \<lparr>users = [ann_busy, bob], tasks = [open_task, done_task], faults = []\<rparr>)"
    using missing by (simp add: sample_defs)
  have d: "fst (delete_users ''u3'' \<lparr>users = [ann_busy, bob], tasks = [open_task, done_task], faults = [True]\<rparr>) \<noteq>
     NoContent 204"
    using rejected by (simp add: sample_defs)
  from a b c d show ?thesis by blast
qed

text \<open>
  The write of \<open>t2\<close> is rejected: the response is 500 and Ann is still there.
\<close>

lemma delete_users_rejected_write:
  "fst (delete_users ''u1''
          \<lparr>users = [ann_busy, bob], tasks = [open_task, done_task],
            faults = [False, False, False, True]\<rparr>) =
     Json 500 ''Error deleting user'' (ErrMessage StoreFailure) \<and>
   find (\<lambda>d. u_id d = ''u1'')
     (users (snd (delete_users ''u1''
          \<lparr>users = [ann_busy, bob], tasks = [open_task, done_task],
            faults = [False, False, False, True]\<rparr>))) =
     Some ann_busy"
  by (simp add: sample_defs store_defs handler_defs Let_def)

section \<open>The stored completed flag (C10)\<close>

lemma put_tasks_200:
  assumes "put_tasks i body s = (Json 200 m d, s')"
  shows "\<exists>t'. d = TaskDoc t' \<and> find (\<lambda>x. t_id x = i) (tasks s') = Some t' \<and>
              completed t' = completed_of (b_completed body)"
proof -
  have valid: "given (b_name body)" "given (b_deadline body)"
    using assms by (auto simp: put_tasks_def sendError_def split: if_splits)
  obtain r1 s1 where f: "Task_findById i s = (r1, s1)" by (cases "Task_findById i s")
  have "\<exists>t. r1 = Inr (Some t)"
    using assms valid f
    by (cases r1) (auto simp: put_tasks_def sendError_def split: option.splits)
  then obtain t where r1: "r1 = Inr (Some t)" by blast
  from Task_findById_Some[OF f[unfolded r1]]
  have found: "find (\<lambda>d. t_id d = i) (tasks s) = Some t" and s1: "tasks s1 = tasks s" by simp_all
  let ?U2 = "or_default (b_assignedUser body) []"
  let ?s2 = "snd (resolveUserName ?U2 (b_assignedUserName body) s1)"
  let ?t' = "t\<lparr>t_name := or_default (b_name body) [],
               description := or_default (b_description body) [],
               deadline := or_default (b_deadline body) [],
               completed := completed_of (b_completed body),
               assignedUser := ?U2,
               assignedUserName := fst (resolveUserName ?U2 (b_assignedUserName body) s1)\<rparr>"
  obtain r3 s3 where save: "Task_save ?t' ?s2 = (r3, s3)" by (cases "Task_save ?t' ?s2")
  have run: "put_tasks i body s =
               (case r3 of
                  Inl err \<Rightarrow> (sendError 500 ''Error updating task'' (Some err), s3)
                | Inr updatedTask \<Rightarrow>
                    put_tasks_sync (assignedUser t) (completed t) ?U2
                      (completed_of (b_completed body)) updatedTask s3)"
    using valid f r1 save by (simp add: put_tasks_def case_prod_unfold split: sum.splits)
  have id: "t_id ?t' = i" using find_id[OF found] by simp
  from Task_save_cases[OF save] show ?thesis
  proof
    assume ok: "r3 = Inr ?t' \<and> tasks s3 = map (\<lambda>d. if t_id d = t_id ?t' then ?t' else d) (tasks ?s2)"
    then have sync: "put_tasks_sync (assignedUser t) (completed t) ?U2
                       (completed_of (b_completed body)) ?t' s3 = (Json 200 m d, s')"
      using assms run by simp
    have d: "d = TaskDoc ?t'"
      using sync put_tasks_sync_response[of "assignedUser t" "completed t" ?U2
          "completed_of (b_completed body)" ?t' s3 m d]
      by simp
    have "tasks s' = tasks s3"
      using sync put_tasks_sync_keeps_tasks[of "assignedUser t" "completed t" ?U2
          "completed_of (b_completed body)" ?t' s3]
      by simp
    also have "\<dots> = map (\<lambda>d. if t_id d = i then ?t' else d) (tasks s)"
      using ok id by (simp add: resolveUserName_keeps s1)
    finally have "find (\<lambda>x. t_id x = i) (tasks s') = Some ?t'"
      using found id by (simp add: find_replace[where f = t_id and j = i])
    with d show ?thesis by simp
  next
    assume "(\<exists>e. r3 = Inl e) \<and> tasks s3 = tasks ?s2"
    then show ?thesis using assms run by (auto simp: sendError_def)
  qed
qed

text \<open>
  C10. Whatever the store does, when \<^verbatim>\<open>POST /api/tasks\<close> answers 201 or \<^verbatim>\<open>PUT /api/tasks/:id\<close>
  answers 200, the task stored under the id is the one in the response, and its
  \<open>completed\<close> is true exactly when the body's \<open>completed\<close> is the boolean \<^verbatim>\<open>true\<close> or the
  string \<^verbatim>\<open>"true"\<close>.
\<close>

theorem C10_completed_coercion:
  "(\<forall>m d s'. post_tasks body oid s = (Json 201 m d, s') \<longrightarrow>
      (\<exists>t. d = TaskDoc t \<and> find (\<lambda>x. t_id x = oid) (tasks s') = Some t \<and>
           (completed t \<longleftrightarrow>
              b_completed body = Some (JBool True) \<or> b_completed body = Some (JStr ''true'')))) \<and>
   (\<forall>m d s'. put_tasks i body s = (Json 200 m d, s') \<longrightarrow>
      (\<exists>t. d = TaskDoc t \<and> find (\<lambda>x. t_id x = i) (tasks s') = Some t \<and>
           (completed t \<longleftrightarrow>
              b_completed body = Some (JBool True) \<or> b_completed body = Some (JStr ''true''))))"
proof (intro conjI allI impI)
  fix m d s'
  assume a: "post_tasks body oid s = (Json 201 m d, s')"
  from post_tasks_cases[OF a] obtain t where
    t: "d = TaskDoc t" "t_id t = oid" "completed t = completed_of (b_completed body)"
      "tasks s' = tasks s @ [t]" "\<not> list_ex (\<lambda>d. t_id d = oid) (tasks s)"
    by auto
  have "find (\<lambda>x. t_id x = oid) (tasks s') = Some t"
    using t by (simp add: find_append_new)
  then show "\<exists>t. d = TaskDoc t \<and> find (\<lambda>x. t_id x = oid) (tasks s') = Some t \<and>
           (completed t \<longleftrightarrow>
              b_completed body = Some (JBool True) \<or> b_completed body = Some (JStr ''true''))"
    using t by (auto simp: completed_of_def)
next
  fix m d s'
  assume a: "put_tasks i body s = (Json 200 m d, s')"
  from put_tasks_200[OF a] show "\<exists>t. d = TaskDoc t \<and> find (\<lambda>x. t_id x = i) (tasks s') = Some t \<and>
           (completed t \<longleftrightarrow>
              b_completed body = Some (JBool True) \<or> b_completed body = Some (JStr ''true''))"
    by (auto simp: completed_of_def)
qed

text \<open>
  The number 1, the strings \<^verbatim>\<open>"True"\<close> and \<^verbatim>\<open>"yes"\<close> store false; \<^verbatim>\<open>"true"\<close> and \<^verbatim>\<open>true\<close> store true.
\<close>

theorem C10_completed_coercion_witness:
  "(\<exists>t. find (\<lambda>x. t_id x = ''t3'')
         (tasks (snd (post_tasks (slides_body (Some (JNum 1)) ''u1'') ''t3''
                        \<lparr>users = [ann], tasks = [], faults = []\<rparr>))) = Some t \<and>
       completed t = False) \<and>
   (\<exists>t. find (\<lambda>x. t_id x = ''t3'')
         (tasks (snd (post_tasks (slides_body (Some (JStr ''True'')) ''u1'') ''t3''
                        \<lparr>users = [ann], tasks = [], faults = []\<rparr>))) = Some t \<and>
       completed t = False) \<and>
   (\<exists>t. find (\<lambda>x. t_id x = ''t3'')
         (tasks (snd (post_tasks (slides_body (Some (JStr ''true'')) ''u1'') ''t3''
                        \<lparr>users = [ann], tasks = [], faults = []\<rparr>))) = Some t \<and>
       completed t = True) \<and>
   (\<exists>t. find (\<lambda>x. t_id x = ''t2'')
         (tasks (snd (put_tasks ''t2'' (slides_body (Some (JStr ''yes'')) ''u1'')
                        \<lparr>users = [ann_busy], tasks = [open_task], faults = []\<rparr>))) = Some t \<and>
       completed t = False) \<and>
   (\<exists>t. find (\<lambda>x. t_id x = ''t2'')
         (tasks (snd (put_tasks ''t2'' (slides_body (Some (JBool True)) ''u1'')
                        \<lparr>users = [ann_busy], tasks = [open_task], faults = []\<rparr>))) = Some t \<and>
       completed t = True)"
proof -
  have "\<exists>t. find (\<lambda>x. t_id x = ''t3'')
              (tasks (snd (post_tasks (slides_body (Some (JNum 1)) ''u1'') ''t3''
                             \<lparr>users = [ann], tasks = [], faults = []\<rparr>))) = Some t \<and>
            completed t = False"
  proof -
    let ?run = "post_tasks (slides_body (Some (JNum 1)) ''u1'') ''t3''
                  \<lparr>users = [ann], tasks = [], faults = []\<rparr>"
    have "\<exists>d. fst ?run = Json 201 ''Task created successfully'' d"
      by (simp add: sample_defs store_defs handler_defs Let_def)
    then obtain d where run: "?run = (Json 201 ''Task created successfully'' d, snd ?run)"
      by (auto simp: prod_eq_iff)
    show ?thesis
      using C10_completed_coercion
        [where body = "slides_body (Some (JNum 1)) ''u1''" and oid = "''t3''" and i = "''t3''"
           and s = "\<lparr>users = [ann], tasks = [], faults = []\<rparr>",
         THEN conjunct1, rule_format, OF run]
      by (auto simp: slides_body_def)
  qed
  moreover
  have "\<exists>t. find (\<lambda>x. t_id x = ''t3'')
              (tasks (snd (post_tasks (slides_body (Some (JStr ''True'')) ''u1'') ''t3''
                             \<lparr>users = [ann], tasks = [], faults = []\<rparr>))) = Some t \<and>
            completed t = False"
  proof -
    let ?run = "post_tasks (slides_body (Some (JStr ''True'')) ''u1'') ''t3''
                  \<lparr>users = [ann], tasks = [], faults = []\<rparr>"
    have "\<exists>d. fst ?run = Json 201 ''Task created successfully'' d"
      by (simp add: sample_defs store_defs handler_defs Let_def)
    then obtain d where run: "?run = (Json 201 ''Task created successfully'' d, snd ?run)"
      by (auto simp: prod_eq_iff)
    show ?thesis
      using C10_completed_coercion
        [where body = "slides_body (Some (JStr ''True'')) ''u1''" and oid = "''t3''" and i = "''t3''"
           and s = "\<lparr>users = [ann], tasks = [], faults = []\<rparr>",
         THEN conjunct1, rule_format, OF run]
      by (auto simp: slides_body_def)
  qed
  moreover
  have "\<exists>t. find (\<lambda>x. t_id x = ''t3'')
              (tasks (snd (post_tasks (slides_body (Some (JStr ''true'')) ''u1'') ''t3''
                             \<lparr>users = [ann], tasks = [], faults = []\<rparr>))) = Some t \<and>
            completed t = True"
  proof -
    let ?run = "post_tasks (slides_body (Some (JStr ''true'')) ''u1'') ''t3''
                  \<lparr>users = [ann], tasks = [], faults = []\<rparr>"
    have "\<exists>d. fst ?run = Json 201 ''Task created successfully'' d"
      by (simp add: sample_defs store_defs handler_defs Let_def)
    then obtain d where run: "?run = (Json 201 ''Task created successfully'' d, snd ?run)"
      by (auto simp: prod_eq_iff)
    show ?thesis
      using C10_completed_coercion
        [where body = "slides_body (Some (JStr ''true'')) ''u1''" and oid = "''t3''" and i = "''t3''"
           and s = "\<lparr>users = [ann], tasks = [], faults = []\<rparr>",
         THEN conjunct1, rule_format, OF run]
      by (auto simp: slides_body_def)
  qed
  moreover
  have "\<exists>t. find (\<lambda>x. t_id x = ''t2'')
              (tasks (snd (put_tasks ''t2'' (slides_body (Some (JStr ''yes'')) ''u1'')
                             \<lparr>users = [ann_busy], tasks = [open_task], faults = []\<rparr>))) = Some t \<and>
            completed t = False"
  proof -
    let ?run = "put_tasks ''t2'' (slides_body (Some (JStr ''yes'')) ''u1'')
                  \<lparr>users = [ann_busy], tasks = [open_task], faults = []\<rparr>"
    have "\<exists>d. fst ?run = Json 200 ''Task updated successfully'' d"
      by (simp add: sample_defs store_defs handler_defs Let_def)
    then obtain d where run: "?run = (Json 200 ''Task updated successfully'' d, snd ?run)"
      by (auto simp: prod_eq_iff)
    show ?thesis
      using C10_completed_coercion
        [where body = "slides_body (Some (JStr ''yes'')) ''u1''" and oid = "''t2''" and i = "''t2''"
           and s = "\<lparr>users = [ann_busy], tasks = [open_task], faults = []\<rparr>",
         THEN conjunct2, rule_format, OF run]
      by (auto simp: slides_body_def)
  qed
  moreover
  have "\<exists>t. find (\<lambda>x. t_id x = ''t2'')
              (tasks (snd (put_tasks ''t2'' (slides_body (Some (JBool True)) ''u1'')
                             \<lparr>users = [ann_busy], tasks = [open_task], faults = []\<rparr>))) = Some t \<and>
            completed t = True"
  proof -
    let ?run = "put_tasks ''t2'' (slides_body (Some (JBool True)) ''u1'')
                  \<lparr>users = [ann_busy], tasks = [open_task], faults = []\<rparr>"
    have "\<exists>d. fst ?run = Json 200 ''Task updated successfully'' d"
      by (simp add: sample_defs store_defs handler_defs Let_def)
    then obtain d where run: "?run = (Json 200 ''Task updated successfully'' d, snd ?run)"
      by (auto simp: prod_eq_iff)
    show ?thesis
      using C10_completed_coercion
        [where body = "slides_body (Some (JBool True)) ''u1''" and oid = "''t2''" and i = "''t2''"
           and s = "\<lparr>users = [ann_busy], tasks = [open_task], faults = []\<rparr>",
         THEN conjunct2, rule_format, OF run]
      by (auto simp: slides_body_def)
  qed
  ultimately show ?thesis by blast
qed

section \<open>A failure of the relationship repair (C3)\<close>

text \<open>
  The claim: on every POST or PUT whose primary write succeeds, a failure of the repair
  of the other document is not surfaced. \<^verbatim>\<open>POST /api/users\<close> surfaces it: Bob is created with
  \<open>t2\<close> pending, his document is written, the write of \<open>t2\<close> is rejected, and the response
  is 500 \<^verbatim>\<open>Error updating assigned tasks\<close>.
\<close>

theorem C3_post_users_surfaces_repair_failure:
  "fst (post_users bob_body ''u2''
          \<lparr>users = [ann_busy], tasks = [open_task], faults = [False, False, True]\<rparr>) =
     Json 500 ''Error updating assigned tasks'' (ErrMessage StoreFailure) \<and>
   find (\<lambda>d. u_id d = ''u2'')
     (users (snd (post_users bob_body ''u2''
                    \<lparr>users = [ann_busy], tasks = [open_task], faults = [False, False, True]\<rparr>))) =
     Some (bob\<lparr>pendingTasks := [''t2'']\<rparr>)"
  by (simp add: sample_defs store_defs handler_defs Let_def)

text \<open>
  The two PUT handlers surface it as well, through the \<^verbatim>\<open>catch\<close> that ends their chain: the
  task, or the user, is written and the response is 500.
\<close>

lemma put_tasks_surfaces_repair_failure:
  "fst (put_tasks ''t2'' (slides_body None ''u2'')
          \<lparr>users = [ann_busy, bob], tasks = [open_task], faults = [False, False, False, True]\<rparr>) =
     Json 500 ''Error updating task'' (ErrMessage StoreFailure) \<and>
   tasks (snd (put_tasks ''t2'' (slides_body None ''u2'')
          \<lparr>users = [ann_busy, bob], tasks = [open_task], faults = [False, False, False, True]\<rparr>)) =
     [open_task\<lparr>assignedUser := ''u2'', assignedUserName := ''Bob''\<rparr>]"
  by (simp add: sample_defs store_defs handler_defs Let_def)

lemma put_users_surfaces_repair_failure:
  "fst (put_users ''u2'' bob_body
          \<lparr>users = [ann_busy, bob], tasks = [open_task], faults = [False, False, False, True]\<rparr>) =
     Json 500 ''Error updating user'' (ErrMessage StoreFailure) \<and>
   users (snd (put_users ''u2'' bob_body
          \<lparr>users = [ann_busy, bob], tasks = [open_task], faults = [False, False, False, True]\<rparr>)) =
     [ann_busy, bob\<lparr>pendingTasks := [''t2'']\<rparr>]"
  by (simp add: sample_defs store_defs handler_defs Let_def)

text \<open>
  C3, amended. On \<^verbatim>\<open>POST /api/tasks\<close>, once the task document is written, the response is
  201 with that document whatever the store does afterwards: a failure while the task id
  is added to the assigned user's \<open>pendingTasks\<close> is not surfaced. The task document is
  written when the id, new before the request, is in the collection after it.
\<close>

theorem C3_post_tasks_swallows_repair_failure:
  assumes fresh: "\<not> list_ex (\<lambda>d. t_id d = oid) (tasks s)"
    and run: "post_tasks body oid s = (r, s')"
    and stored: "find (\<lambda>d. t_id d = oid) (tasks s') = Some t"
  shows "r = Json 201 ''Task created successfully'' (TaskDoc t)"
proof -
  have absent: "find (\<lambda>d. t_id d = oid) (tasks s) = None"
    using fresh by (simp add: find_None_list_ex)
  from post_tasks_cases[OF run] absent stored
  obtain t0 where t0: "r = Json 201 ''Task created successfully'' (TaskDoc t0)"
    "t_id t0 = oid" "tasks s' = tasks s @ [t0]"
    by auto
  have "find (\<lambda>d. t_id d = oid) (tasks s') = Some t0"
    using t0 fresh by (simp add: find_append_new)
  with stored t0 show ?thesis by simp
qed

text \<open>
  The lookup of Ann for the repair is rejected: the response is 201 and Ann's
  \<open>pendingTasks\<close> is still empty.
\<close>

theorem C3_post_tasks_swallows_repair_failure_witness:
  "fst (post_tasks (slides_body None ''u1'') ''t3''
          \<lparr>users = [ann], tasks = [], faults = [False, False, True]\<rparr>) =
     Json 201 ''Task created successfully''
       (TaskDoc \<lparr>t_id = ''t3'', t_name = ''Slides'', description = [], deadline = ''2026-02-01'',
                 completed = False, assignedUser = ''u1'', assignedUserName = ''Ann''\<rparr>) \<and>
   users (snd (post_tasks (slides_body None ''u1'') ''t3''
          \<lparr>users = [ann], tasks = [], faults = [False, False, True]\<rparr>)) = [ann]"
proof -
  let ?s = "\<lparr>users = [ann], tasks = [], faults = [False, False, True]\<rparr>"
  let ?run = "post_tasks (slides_body None ''u1'') ''t3'' ?s"
  let ?t = "\<lparr>t_id = ''t3'', t_name = ''Slides'', description = [], deadline = ''2026-02-01'',
            completed = False, assignedUser = ''u1'', assignedUserName = ''Ann''\<rparr>"
  have fresh: "\<not> list_ex (\<lambda>d. t_id d = ''t3'') (tasks ?s)" by simp
  have run: "?run = (fst ?run, snd ?run)" by simp
  have stored: "find (\<lambda>d. t_id d = ''t3'') (tasks (snd ?run)) = Some ?t"
    by (simp add: sample_defs store_defs handler_defs Let_def)
  have "fst ?run = Json 201 ''Task created successfully'' (TaskDoc ?t)"
    using fresh run stored by (rule C3_post_tasks_swallows_repair_failure)
  moreover have "users (snd ?run) = [ann]"
    by (simp add: sample_defs store_defs handler_defs Let_def)
  ultimately show ?thesis by blast
qed

section \<open>The pending-task invariant across a handler (C1)\<close>

text \<open>
  C1. The claim: after any handler operation that completes successfully, every task
  that is assigned and not completed is in the \<open>pendingTasks\<close> of its assigned user, in
  particular after a \<^verbatim>\<open>PUT /api/tasks/:id\<close> that sets \<open>completed\<close> back to false and keeps
  the assigned user. The handler does not do that: Ann's task \<open>t1\<close> is completed, so her
  \<open>pendingTasks\<close> is empty and the invariant holds; the update that reopens the task
  answers 200, stores \<open>completed = False\<close> and leaves Ann's \<open>pendingTasks\<close> empty, so the
  invariant fails afterwards.
\<close>

theorem C1_reopened_task_not_pending:
  "pendingInvariant \<lparr>users = [ann], tasks = [done_task], faults = []\<rparr> \<and>
   fst (put_tasks ''t1'' reopen_body \<lparr>users = [ann], tasks = [done_task], faults = []\<rparr>) =
     Json 200 ''Task updated successfully'' (TaskDoc (done_task\<lparr>completed := False\<rparr>)) \<and>
   snd (put_tasks ''t1'' reopen_body \<lparr>users = [ann], tasks = [done_task], faults = []\<rparr>) =
     \<lparr>users = [ann], tasks = [done_task\<lparr>completed := False\<rparr>], faults = []\<rparr> \<and>
   \<not> pendingInvariant (snd (put_tasks ''t1'' reopen_body \<lparr>users = [ann], tasks = [done_task], faults = []\<rparr>))"
  by (simp add: pendingInvariant_def ann_def done_task_def reopen_body_def store_defs handler_defs Let_def)

text \<open>The store that the update leaves behind, on its own.\<close>

theorem C1_reopened_task_not_pending_witness:
  "\<not> pendingInvariant \<lparr>users = [ann], tasks = [done_task\<lparr>completed := False\<rparr>], faults = []\<rparr>"
proof -
  let ?after = "snd (put_tasks ''t1'' reopen_body \<lparr>users = [ann], tasks = [done_task], faults = []\<rparr>)"
  have left: "?after = \<lparr>users = [ann], tasks = [done_task\<lparr>completed := False\<rparr>], faults = []\<rparr>"
    using C1_reopened_task_not_pending by blast
  have "\<not> pendingInvariant ?after"
    using C1_reopened_task_not_pending by blast
  then show ?thesis
    unfolding left .
qed

end
